theory Spec2Isabelle
  imports Complex_Main
begin

section \<open>Numbers, configuration and the random source\<close>

text \<open>
  The simulation engine of \<^verbatim>\<open>src/game.js\<close> is embedded function by function.
  JavaScript numbers are modelled as real numbers (exact arithmetic: no rounding,
  no \<^verbatim>\<open>NaN\<close>, no infinities); array indices and counters are natural numbers or
  integers.  Objects that the program shares by reference (the snakes) live in an
  explicit store, a map from references to records; the global collections and
  flags are the fields of one world record that every routine passes on.
  \<^verbatim>\<open>Math.random()\<close> reads the next element of an arbitrary sequence of reals
  carried by the world.  Rendering-only descriptors that are drawn at random from
  an asset table (colour, pattern, emoji) are kept as the drawn table index.
\<close>

record Config =
  mapSize :: real
  botCount :: nat
  foodCount :: nat
  baseSpeed :: real
  boostSpeed :: real
  turnSpeed :: real
  maxPathPoints :: nat
  colorsLength :: real
  fruitEmojisLength :: real
  patternsLength :: real

definition CONFIG :: Config where
  "CONFIG = \<lparr>mapSize = 100000, botCount = 150, foodCount = 5000, baseSpeed = 450,
     boostSpeed = 900, turnSpeed = 8.0, maxPathPoints = 400,
     colorsLength = 15, fruitEmojisLength = 18, patternsLength = 3\<rparr>"

section \<open>Vector helper\<close>

record Vector =
  x :: real
  y :: real

definition Vector_add :: "Vector \<Rightarrow> Vector \<Rightarrow> Vector" where
  "Vector_add this v = \<lparr>Vector.x = Vector.x this + Vector.x v, y = Vector.y this + Vector.y v\<rparr>"

definition Vector_sub :: "Vector \<Rightarrow> Vector \<Rightarrow> Vector" where
  "Vector_sub this v = \<lparr>Vector.x = Vector.x this - Vector.x v, y = Vector.y this - Vector.y v\<rparr>"

definition Vector_mult :: "Vector \<Rightarrow> real \<Rightarrow> Vector" where
  "Vector_mult this n = \<lparr>Vector.x = Vector.x this * n, y = Vector.y this * n\<rparr>"

definition Vector_mag :: "Vector \<Rightarrow> real" where
  "Vector_mag this = sqrt (Vector.x this * Vector.x this + Vector.y this * Vector.y this)"

definition Vector_norm :: "Vector \<Rightarrow> Vector" where
  "Vector_norm this = (let m = Vector_mag this in
     if m = 0 then \<lparr>Vector.x = 0, y = 0\<rparr>
     else \<lparr>Vector.x = Vector.x this / m, y = Vector.y this / m\<rparr>)"

definition Vector_dist :: "Vector \<Rightarrow> Vector \<Rightarrow> real" where
  "Vector_dist this v = sqrt ((Vector.x this - Vector.x v)\<^sup>2 + (Vector.y this - Vector.y v)\<^sup>2)"

definition Vector_copy :: "Vector \<Rightarrow> Vector" where
  "Vector_copy this = \<lparr>Vector.x = Vector.x this, y = Vector.y this\<rparr>"

text \<open>\<^verbatim>\<open>Math.atan2\<close> on reals, with the value 0 at the origin.\<close>

definition Math_atan2 :: "real \<Rightarrow> real \<Rightarrow> real" where
  "Math_atan2 b a =
     (if 0 < a then arctan (b / a)
      else if a < 0 \<and> 0 \<le> b then arctan (b / a) + pi
      else if a < 0 \<and> b < 0 then arctan (b / a) - pi
      else if 0 < b then pi / 2
      else if b < 0 then - (pi / 2)
      else 0)"

section \<open>Spatial hash\<close>

text \<open>
  The grid maps a cell key to the array of object references pushed into that cell.
  The source builds the key as the string \<^verbatim>\<open>`${cx},${cy}`\<close> of the two floored
  quotients; the pair of integers stands for that string.  \<^verbatim>\<open>insert(obj)\<close> reads
  \<^verbatim>\<open>obj.pos\<close>: the model receives the reference and the position read from it.
\<close>

record SpatialHash =
  cellSize :: real
  grid :: "int \<times> int \<Rightarrow> nat list option"

record Rect =
  x :: real
  y :: real
  w :: real
  h :: real

definition SpatialHash_new :: "real \<Rightarrow> SpatialHash" where
  "SpatialHash_new cs = \<lparr>cellSize = cs, grid = Map.empty\<rparr>"

definition SpatialHash_insert :: "nat \<Rightarrow> Vector \<Rightarrow> SpatialHash \<Rightarrow> SpatialHash" where
  "SpatialHash_insert obj objPos this =
     (let k = (\<lfloor>Vector.x objPos / cellSize this\<rfloor>, \<lfloor>Vector.y objPos / cellSize this\<rfloor>)
      in case grid this k of
           None \<Rightarrow> this\<lparr>grid := (grid this)(k \<mapsto> [obj])\<rparr>
         | Some cell \<Rightarrow> this\<lparr>grid := (grid this)(k \<mapsto> cell @ [obj])\<rparr>)"

definition SpatialHash_retrieve :: "Rect \<Rightarrow> SpatialHash \<Rightarrow> nat list" where
  "SpatialHash_retrieve rect this =
     (let sx = \<lfloor>Rect.x rect / cellSize this\<rfloor>;
          sy = \<lfloor>Rect.y rect / cellSize this\<rfloor>;
          ex = \<lfloor>(Rect.x rect + Rect.w rect) / cellSize this\<rfloor>;
          ey = \<lfloor>(Rect.y rect + Rect.h rect) / cellSize this\<rfloor>
      in concat (map (\<lambda>cx. concat (map (\<lambda>cy.
           (case grid this (cx, cy) of None \<Rightarrow> [] | Some cell \<Rightarrow> cell)) [sy..ey])) [sx..ex]))"

definition SpatialHash_clear :: "SpatialHash \<Rightarrow> SpatialHash" where
  "SpatialHash_clear this = this\<lparr>grid := Map.empty\<rparr>"

section \<open>Entities and the world\<close>

record Food =
  pos :: Vector
  "value" :: real
  radius :: real
  emoji :: int
  rotation :: real
  floatOffset :: real

record PowerUp =
  pos :: Vector
  multiplier :: real
  radius :: real

record Particle =
  pos :: Vector
  vel :: Vector
  life :: real
  color :: int

record Snake =
  name :: string
  isBot :: bool
  id_snake :: int
  pos :: Vector
  angle :: real
  targetAngle :: real
  score :: real
  width :: real
  targetWidth :: real
  path :: "Vector list"
  color :: int
  color2 :: int
  pattern :: int
  dead :: bool
  multiplier :: real
  multiplierTimer :: real
  changeDirTimer :: real
  wantBoost :: bool
  boostCooldown :: real

text \<open>
  The world: the store of snake objects, the references \<^verbatim>\<open>player\<close> and
  \<^verbatim>\<open>bots\<close>, the global collections, the grid, the input flag, the frame counter
  and the random sequence with the number of draws made so far.
\<close>

record World =
  heap :: "nat \<Rightarrow> Snake option"
  player :: nat
  bots :: "nat list"
  foods :: "Food list"
  powerups :: "PowerUp list"
  particles :: "Particle list"
  spatialHash :: SpatialHash
  mouseDown :: bool
  frameCount :: nat
  gameRunning :: bool
  rnd :: "nat \<Rightarrow> real"
  rndi :: nat

definition Math_random :: "World \<Rightarrow> real \<times> World" where
  "Math_random wd = (rnd wd (rndi wd), wd\<lparr>rndi := Suc (rndi wd)\<rparr>)"

section \<open>Food, particles and death effects\<close>

text \<open>
  \<^verbatim>\<open>new Food(x, y, value)\<close>.  A coordinate that is falsy (zero) is replaced by a
  random one, drawn only then; a position outside the map is pulled back onto the
  circle of radius \<^verbatim>\<open>mapSize - 50\<close>.
\<close>

definition Food_new :: "real \<Rightarrow> real \<Rightarrow> real \<Rightarrow> World \<Rightarrow> Food \<times> World" where
  "Food_new fx fy val wd =
     (let (px, w1) = (if fx = 0
            then (let (r, w') = Math_random wd in (r * mapSize CONFIG * 2 - mapSize CONFIG, w'))
            else (fx, wd));
          (py, w2) = (if fy = 0
            then (let (r, w') = Math_random w1 in (r * mapSize CONFIG * 2 - mapSize CONFIG, w'))
            else (fy, w1));
          p = \<lparr>Vector.x = px, y = py\<rparr>;
          p' = (if Vector_mag p > mapSize CONFIG
                then Vector_mult (Vector_norm p) (mapSize CONFIG - 50) else p);
          (r3, w3) = Math_random w2;
          (r4, w4) = Math_random w3;
          (r5, w5) = Math_random w4
      in (\<lparr>Food.pos = p', value = val, radius = 15 + val * 3,
           emoji = \<lfloor>r3 * fruitEmojisLength CONFIG\<rfloor>, rotation = r4 * pi * 2,
           floatOffset = r5 * 100\<rparr>, w5))"

text \<open>
  \<^verbatim>\<open>spawnParticles(pos, count, color)\<close>: the first argument of the loop function is
  the number of iterations still to run.
\<close>

fun spawnParticles_loop :: "nat \<Rightarrow> Vector \<Rightarrow> int \<Rightarrow> World \<Rightarrow> World" where
  "spawnParticles_loop 0 p c wd = wd"
| "spawnParticles_loop (Suc n) p c wd =
     (let (r1, w1) = Math_random wd;
          (r2, w2) = Math_random w1
      in spawnParticles_loop n p c
           (w2\<lparr>particles := particles w2 @
              [\<lparr>Particle.pos = Vector_copy p,
                vel = \<lparr>Vector.x = (r1 - 0.5) * 200, y = (r2 - 0.5) * 200\<rparr>,
                life = 1.0, color = c\<rparr>]\<rparr>))"

definition spawnParticles :: "Vector \<Rightarrow> nat \<Rightarrow> int \<Rightarrow> World \<Rightarrow> World" where
  "spawnParticles p count c wd = spawnParticles_loop count p c wd"

text \<open>
  \<^verbatim>\<open>dropFood(snake)\<close>: one pellet for every \<^verbatim>\<open>step\<close>-th path point.  The stride is
  \<^verbatim>\<open>Math.max(1, ...)\<close>, hence positive; the test \<open>0 < step\<close> in the loop function
  only makes the recursion well-founded for every argument.
\<close>

definition dropFood_body :: "nat \<Rightarrow> Snake \<Rightarrow> World \<Rightarrow> World" where
  "dropFood_body i snake wd =
     (let p = path snake ! i;
          val = max 1 (of_int \<lfloor>width snake / 5\<rfloor>);
          (r1, w1) = Math_random wd;
          rx = (r1 - 0.5) * width snake * 2;
          (r2, w2) = Math_random w1;
          ry = (r2 - 0.5) * width snake * 2;
          (f, w3) = Food_new (Vector.x p + rx) (Vector.y p + ry) val w2
      in w3\<lparr>foods := foods w3 @ [f]\<rparr>)"

function dropFood_loop :: "nat \<Rightarrow> nat \<Rightarrow> Snake \<Rightarrow> World \<Rightarrow> World" where
  "dropFood_loop i step snake wd =
     (if i < length (path snake) \<and> 0 < step
      then dropFood_loop (i + step) step snake (dropFood_body i snake wd)
      else wd)"
  by pat_completeness auto
termination
  by (relation "measure (\<lambda>(i, step, snake, wd). length (path snake) - i)") auto

declare dropFood_loop.simps [simp del]

definition dropFood :: "Snake \<Rightarrow> World \<Rightarrow> World" where
  "dropFood snake wd =
     (let step = nat (max 1 \<lfloor>width snake / 10\<rfloor>) in dropFood_loop 0 step snake wd)"

section \<open>Snake\<close>

definition Snake_calculateWidth :: "Snake \<Rightarrow> real" where
  "Snake_calculateWidth this = min 500 (15 + log 10 (max 10 (score this)) * 25)"

definition Snake_calculateTargetLength :: "Snake \<Rightarrow> real" where
  "Snake_calculateTargetLength this = min 8000 (200 + score this * 0.1)"

definition Snake_getPathSpacing :: "Snake \<Rightarrow> real" where
  "Snake_getPathSpacing this = max (width this * 0.5) (width this * 1.0)"

definition Snake_grow :: "real \<Rightarrow> Snake \<Rightarrow> Snake" where
  "Snake_grow amount this = this\<lparr>score := score this + amount * Snake.multiplier this * 10\<rparr>"

text \<open>
  The pre-fill loop of the constructor,
  \<^verbatim>\<open>for (let i = 0; i < startLen; i += spacing) path.push(pos.add(dir.mult(i)))\<close>.
  The constructor calls it with \<open>spacing = width / 2\<close>, which is at least 20; the
  test \<open>0 < spacing\<close> makes the recursion well-founded for every argument.
\<close>

function prefill :: "real \<Rightarrow> real \<Rightarrow> real \<Rightarrow> Vector \<Rightarrow> Vector \<Rightarrow> Vector list" where
  "prefill i startLen spacing p dir =
     (if i < startLen \<and> 0 < spacing
      then Vector_add p (Vector_mult dir i) # prefill (i + spacing) startLen spacing p dir
      else [])"
  by pat_completeness auto
termination
proof (relation "measure (\<lambda>(i, startLen, spacing, p, dir). nat \<lceil>(startLen - i) / spacing\<rceil>)")
  show "wf (measure (\<lambda>(i, startLen, spacing, p, dir). nat \<lceil>(startLen - i) / spacing\<rceil>))"
    by simp
next
  fix i startLen spacing :: real and p dir :: Vector
  assume a: "i < startLen \<and> 0 < spacing"
  have e: "(startLen - (i + spacing)) / spacing = (startLen - i) / spacing - 1"
    using a by (simp add: field_simps)
  have "0 < (startLen - i) / spacing" using a by simp
  then have "0 < \<lceil>(startLen - i) / spacing\<rceil>" by linarith
  then have "nat (\<lceil>(startLen - i) / spacing\<rceil> - 1) < nat \<lceil>(startLen - i) / spacing\<rceil>"
    by linarith
  then show "((i + spacing, startLen, spacing, p, dir), (i, startLen, spacing, p, dir))
      \<in> measure (\<lambda>(i, startLen, spacing, p, dir). nat \<lceil>(startLen - i) / spacing\<rceil>)"
    by (simp add: e)
qed

declare prefill.simps [simp del]

text \<open>
  \<^verbatim>\<open>new Snake(name, isBot, startScore)\<close>.  The draws are made in the order of the
  source: id, spawn x, spawn y, heading, and after the pre-fill the two colours and
  the pattern.
\<close>

definition Snake_new :: "string \<Rightarrow> bool \<Rightarrow> real \<Rightarrow> World \<Rightarrow> Snake \<times> World" where
  "Snake_new nm isB startScore wd =
     (let (r0, w0) = Math_random wd;
          (r1, w1) = Math_random w0;
          (r2, w2) = Math_random w1;
          (r3, w3) = Math_random w2;
          p = \<lparr>Vector.x = (r1 - 0.5) * mapSize CONFIG * 1.5,
               y = (r2 - 0.5) * mapSize CONFIG * 1.5\<rparr>;
          a = r3 * pi * 2;
          this = \<lparr>name = nm, isBot = isB, id_snake = \<lfloor>r0 * 100000\<rfloor>, pos = p,
                  angle = a, targetAngle = a, score = startScore, width = 0,
                  targetWidth = 0, path = [], color = 0, color2 = 0, pattern = 0,
                  dead = False, multiplier = 1, multiplierTimer = 0,
                  changeDirTimer = 0, wantBoost = False, boostCooldown = 0\<rparr>;
          this = this\<lparr>width := Snake_calculateWidth this\<rparr>;
          this = this\<lparr>targetWidth := width this\<rparr>;
          startLen = Snake_calculateTargetLength this;
          dir = Vector_mult \<lparr>Vector.x = cos (angle this), y = sin (angle this)\<rparr> (- 1);
          spacing = width this / 2;
          this = this\<lparr>path := prefill 0 startLen spacing (Snake.pos this) dir\<rparr>;
          (r4, w4) = Math_random w3;
          (r5, w5) = Math_random w4;
          (r6, w6) = Math_random w5
      in (this\<lparr>color := \<lfloor>r4 * colorsLength CONFIG\<rfloor>,
                color2 := \<lfloor>r5 * colorsLength CONFIG\<rfloor>,
                pattern := \<lfloor>r6 * patternsLength CONFIG\<rfloor>\<rparr>, w6))"

subsection \<open>Snake.update\<close>

text \<open>
  The method is split at the comments of the source.  Each stage takes the state
  of \<^verbatim>\<open>this\<close> (and the world where it touches the globals) and returns the new
  one.
\<close>

text \<open>Multiplier decay.\<close>

definition multiplierDecay :: "real \<Rightarrow> Snake \<Rightarrow> Snake" where
  "multiplierDecay dt this =
     (if Snake.multiplier this > 1
      then (let s1 = this\<lparr>multiplierTimer := multiplierTimer this - dt\<rparr>
            in if multiplierTimer s1 \<le> 0 then s1\<lparr>Snake.multiplier := 1\<rparr> else s1)
      else this)"

text \<open>
  Turning physics.  The two normalisation loops
  \<^verbatim>\<open>while (diff <= -Math.PI) diff += Math.PI * 2\<close> and
  \<^verbatim>\<open>while (diff > Math.PI) diff -= Math.PI * 2\<close> are recursive functions.
\<close>

function wrapUp :: "real \<Rightarrow> real" where
  "wrapUp diff = (if diff \<le> - pi then wrapUp (diff + pi * 2) else diff)"
  by pat_completeness auto
termination
proof (relation "measure (\<lambda>diff. nat (\<lfloor>(- pi - diff) / (pi * 2)\<rfloor> + 1))")
  show "wf (measure (\<lambda>diff. nat (\<lfloor>(- pi - diff) / (pi * 2)\<rfloor> + 1)))"
    by simp
next
  fix diff :: real
  assume a: "diff \<le> - pi"
  have e: "(- pi - (diff + pi * 2)) / (pi * 2) = (- pi - diff) / (pi * 2) - 1"
    by (simp add: field_simps)
  have f: "\<lfloor>(- pi - (diff + pi * 2)) / (pi * 2)\<rfloor> = \<lfloor>(- pi - diff) / (pi * 2)\<rfloor> - 1"
    unfolding e by simp
  have "0 \<le> (- pi - diff) / (pi * 2)" using a by simp
  then have "0 \<le> \<lfloor>(- pi - diff) / (pi * 2)\<rfloor>" by simp
  then have "nat (\<lfloor>(- pi - (diff + pi * 2)) / (pi * 2)\<rfloor> + 1)
      < nat (\<lfloor>(- pi - diff) / (pi * 2)\<rfloor> + 1)"
    unfolding f by linarith
  then show "(diff + pi * 2, diff) \<in> measure (\<lambda>diff. nat (\<lfloor>(- pi - diff) / (pi * 2)\<rfloor> + 1))"
    by (simp only: in_measure)
qed

declare wrapUp.simps [simp del]

function wrapDown :: "real \<Rightarrow> real" where
  "wrapDown diff = (if diff > pi then wrapDown (diff - pi * 2) else diff)"
  by pat_completeness auto
termination
proof (relation "measure (\<lambda>diff. nat (\<lceil>(diff - pi) / (pi * 2)\<rceil>))")
  show "wf (measure (\<lambda>diff. nat (\<lceil>(diff - pi) / (pi * 2)\<rceil>)))"
    by simp
next
  fix diff :: real
  assume a: "pi < diff"
  have e: "(diff - pi * 2 - pi) / (pi * 2) = (diff - pi) / (pi * 2) - 1"
    by (simp add: field_simps)
  have f: "\<lceil>(diff - pi * 2 - pi) / (pi * 2)\<rceil> = \<lceil>(diff - pi) / (pi * 2)\<rceil> - 1"
    unfolding e by simp
  have "0 < (diff - pi) / (pi * 2)" using a by simp
  then have "0 < \<lceil>(diff - pi) / (pi * 2)\<rceil>" by linarith
  then have "nat \<lceil>(diff - pi * 2 - pi) / (pi * 2)\<rceil> < nat \<lceil>(diff - pi) / (pi * 2)\<rceil>"
    unfolding f by linarith
  then show "(diff - pi * 2, diff) \<in> measure (\<lambda>diff. nat (\<lceil>(diff - pi) / (pi * 2)\<rceil>))"
    by (simp only: in_measure)
qed

declare wrapDown.simps [simp del]

definition turningPhysics :: "real \<Rightarrow> Snake \<Rightarrow> Snake" where
  "turningPhysics dt this =
     (let diff = wrapDown (wrapUp (targetAngle this - angle this));
          turnRate = turnSpeed CONFIG * (30 / (width this + 10));
          turnAmount = turnRate * dt
      in if \<bar>diff\<bar> < turnAmount
         then this\<lparr>angle := targetAngle this\<rparr>
         else this\<lparr>angle := angle this + sgn diff * turnAmount\<rparr>)"

text \<open>
  Speed and boost.  The result is the local \<^verbatim>\<open>currentSpeed\<close> together with the
  updated snake and world.  A boosting snake pays \<^verbatim>\<open>dt * 25\<close> and, when the draw
  is below 0.3 and the path has a last point, drops a pellet of value 0.5 there.
\<close>

definition boosting :: "Snake \<Rightarrow> World \<Rightarrow> bool" where
  "boosting this wd = ((\<not> isBot this \<and> mouseDown wd) \<or> (isBot this \<and> wantBoost this))"

definition speedAndBoost :: "real \<Rightarrow> Snake \<Rightarrow> World \<Rightarrow> real \<times> Snake \<times> World" where
  "speedAndBoost dt this wd =
     (let currentSpeed = baseSpeed CONFIG;
          currentSpeed = (if isBot this \<and> width this > 100 then currentSpeed * 0.9
                          else currentSpeed)
      in if boosting this wd \<and> score this > 50
         then (let s1 = this\<lparr>score := score this - dt * 25\<rparr>;
                   (r, w1) = Math_random wd
               in (boostSpeed CONFIG, s1,
                   if r < 0.3
                   then (case path s1 of
                           [] \<Rightarrow> w1
                         | _ # _ \<Rightarrow>
                             (let tail = last (path s1);
                                  (f, w2) = Food_new (Vector.x tail) (Vector.y tail) 0.5 w1
                              in w2\<lparr>foods := foods w2 @ [f]\<rparr>))
                   else w1))
         else (currentSpeed, this, wd))"

text \<open>Steps up to and including the translation of the head (\<^verbatim>\<open>// Move\<close>).\<close>

definition moveHead :: "real \<Rightarrow> Snake \<Rightarrow> World \<Rightarrow> Snake \<times> World" where
  "moveHead dt this wd =
     (let s1 = multiplierDecay dt this;
          s2 = turningPhysics dt s1;
          (currentSpeed, s3, w1) = speedAndBoost dt s2 wd;
          velocity = Vector_mult \<lparr>Vector.x = cos (angle s3), y = sin (angle s3)\<rparr>
                       (currentSpeed * dt)
      in (s3\<lparr>Snake.pos := Vector_add (Snake.pos s3) velocity\<rparr>, w1))"

text \<open>
  Path management: push the head when it is far enough, cut at the cap.
  \<open>pushes\<close> is the test \<^verbatim>\<open>!lastPoint || this.pos.dist(lastPoint) > spacing\<close>.
\<close>

definition pushes :: "real \<Rightarrow> Snake \<Rightarrow> bool" where
  "pushes spacing this =
     (case path this of [] \<Rightarrow> True
      | lastPoint # _ \<Rightarrow> Vector_dist (Snake.pos this) lastPoint > spacing)"

definition pathManagement :: "real \<Rightarrow> Snake \<Rightarrow> Snake" where
  "pathManagement spacing this =
     (if pushes spacing this
      then (let s1 = this\<lparr>path := Vector_copy (Snake.pos this) # path this\<rparr>
            in if length (path s1) > maxPathPoints CONFIG
               then s1\<lparr>path := take (maxPathPoints CONFIG) (path s1)\<rparr>
               else s1)
      else this)"

text \<open>Length management: pop the oldest point when the approximate length is too large.\<close>

definition lengthManagement :: "real \<Rightarrow> Snake \<Rightarrow> Snake" where
  "lengthManagement spacing this =
     (let targetLen = Snake_calculateTargetLength this
      in if real (length (path this)) * spacing > targetLen
         then this\<lparr>path := butlast (path this)\<rparr>
         else this)"

text \<open>Smooth growth.\<close>

definition smoothGrowth :: "real \<Rightarrow> Snake \<Rightarrow> Snake" where
  "smoothGrowth dt this =
     (let s1 = this\<lparr>targetWidth := Snake_calculateWidth this\<rparr>
      in s1\<lparr>width := width s1 + (targetWidth s1 - width s1) * dt * 2\<rparr>)"

text \<open>The whole method on the state of \<^verbatim>\<open>this\<close>.\<close>

definition Snake_update_this :: "real \<Rightarrow> Snake \<Rightarrow> World \<Rightarrow> Snake \<times> World" where
  "Snake_update_this dt this wd =
     (if dead this then (this, wd)
      else (let (s4, w1) = moveHead dt this wd
            in if Vector_mag (Snake.pos s4) > mapSize CONFIG
               then (let s5 = s4\<lparr>dead := True\<rparr>;
                         w2 = spawnParticles (Snake.pos s5) 50 (Snake.color s5) w1;
                         w3 = dropFood s5 w2
                     in (s5, w3))
               else (let spacing = Snake_getPathSpacing s4;
                         s5 = pathManagement spacing s4;
                         s6 = lengthManagement spacing s5;
                         s7 = smoothGrowth dt s6
                     in (s7, w1))))"

text \<open>
  The method on a reference: the object is read from the store and written back.
  A reference that is not allocated does not occur; the world is then returned
  as it is.
\<close>

definition Snake_update :: "real \<Rightarrow> nat \<Rightarrow> World \<Rightarrow> World" where
  "Snake_update dt this wd =
     (case heap wd this of
        None \<Rightarrow> wd
      | Some s \<Rightarrow> (let (s', w') = Snake_update_this dt s wd
                  in w'\<lparr>heap := (heap w')(this \<mapsto> s')\<rparr>))"

section \<open>Bot\<close>

text \<open>
  The sampling loop of the scan,
  \<^verbatim>\<open>for (let i = 0; i < other.path.length; i += step)\<close>, which stops at the first
  sampled point whose distance from \<^verbatim>\<open>checkPos\<close> is below the threshold.  It
  returns whether it stopped there.  The stride is \<^verbatim>\<open>Math.max(5, ...)\<close>, hence
  positive; the test \<open>0 < step\<close> only makes the recursion well-founded for every
  argument.
\<close>

function scanPath :: "Vector \<Rightarrow> real \<Rightarrow> Vector list \<Rightarrow> nat \<Rightarrow> nat \<Rightarrow> bool" where
  "scanPath checkPos threshold otherPath step i =
     (if i < length otherPath \<and> 0 < step
      then (if Vector_dist checkPos (otherPath ! i) < threshold then True
            else scanPath checkPos threshold otherPath step (i + step))
      else False)"
  by pat_completeness auto
termination
  by (relation "measure (\<lambda>(checkPos, threshold, otherPath, step, i). length otherPath - i)")
    auto

declare scanPath.simps [simp del]

text \<open>
  The loop \<^verbatim>\<open>for (const other of nearby)\<close> of the scan.  It is entered with
  \<^verbatim>\<open>danger = false\<close> and returns the flag with the updated state of \<^verbatim>\<open>this\<close>.
  The other snakes are read from the store.
\<close>

fun scanNearby :: "(nat \<Rightarrow> Snake option) \<Rightarrow> nat \<Rightarrow> Vector \<Rightarrow> nat list \<Rightarrow> Snake \<Rightarrow> bool \<times> Snake" where
  "scanNearby hp this checkPos [] s = (False, s)"
| "scanNearby hp this checkPos (other # rest) s =
     (if other = this then scanNearby hp this checkPos rest s
      else (case hp other of
              None \<Rightarrow> scanNearby hp this checkPos rest s
            | Some ot \<Rightarrow>
                if dead ot then scanNearby hp this checkPos rest s
                else (let step = max 5 (length (path ot) div 10)
                      in if scanPath checkPos (width s + width ot) (path ot) step 0
                         then (True, s\<lparr>targetAngle := targetAngle s + pi / 2\<rparr>)
                         else scanNearby hp this checkPos rest s)))"

text \<open>Wandering and occasional boost, the branch taken when no danger was found.\<close>

definition wander :: "real \<Rightarrow> Snake \<Rightarrow> World \<Rightarrow> Snake \<times> World" where
  "wander dt this wd =
     (let s1 = this\<lparr>changeDirTimer := changeDirTimer this - dt * 5\<rparr>;
          (s2, w2) = (if changeDirTimer s1 \<le> 0
                      then (let (r1, w1) = Math_random wd;
                                (r2, w2) = Math_random w1
                            in (s1\<lparr>targetAngle := targetAngle s1 + (r1 - 0.5) * 2.0,
                                    changeDirTimer := 2 + r2 * 2\<rparr>, w2))
                      else (s1, wd));
          s3 = (if boostCooldown s2 > 0
                then s2\<lparr>boostCooldown := boostCooldown s2 - dt * 5\<rparr> else s2)
      in if boostCooldown s3 \<le> 0
         then (let (r3, w3) = Math_random w2
               in if r3 < 0.05 then (s3\<lparr>wantBoost := True, boostCooldown := 2\<rparr>, w3)
                  else if wantBoost s3
                  then (let (r4, w4) = Math_random w3
                        in if r4 < 0.2 then (s3\<lparr>wantBoost := False\<rparr>, w4) else (s3, w4))
                  else (s3, w3))
         else if wantBoost s3
         then (let (r4, w4) = Math_random w2
               in if r4 < 0.2 then (s3\<lparr>wantBoost := False\<rparr>, w4) else (s3, w4))
         else (s3, w2))"

text \<open>
  The probe point of the scan and the two danger checks (map bounds, then snake
  collision), returning the flag \<^verbatim>\<open>danger\<close> and the state of \<^verbatim>\<open>this\<close>.
\<close>

definition lookDist :: "Snake \<Rightarrow> real" where
  "lookDist this = width this * 4 + 200"

definition checkPos :: "Snake \<Rightarrow> Vector" where
  "checkPos this =
     Vector_add (Snake.pos this)
       (Vector_mult \<lparr>Vector.x = cos (angle this), y = sin (angle this)\<rparr> (lookDist this))"

definition boundsDanger :: "Snake \<Rightarrow> bool" where
  "boundsDanger this = (Vector_mag (checkPos this) > mapSize CONFIG - 200)"

definition nearbyOfBot :: "Snake \<Rightarrow> World \<Rightarrow> nat list" where
  "nearbyOfBot this wd =
     SpatialHash_retrieve
       \<lparr>Rect.x = Vector.x (Snake.pos this) - lookDist this,
        y = Vector.y (Snake.pos this) - lookDist this,
        w = lookDist this * 2, h = lookDist this * 2\<rparr> (spatialHash wd)"

definition dangerChecks :: "nat \<Rightarrow> Snake \<Rightarrow> World \<Rightarrow> bool \<times> Snake" where
  "dangerChecks this s wd =
     (let (danger, s1) =
            (if boundsDanger s
             then (let toCenter = Vector_sub \<lparr>Vector.x = 0, y = 0\<rparr> (Snake.pos s)
                   in (True, s\<lparr>targetAngle := Math_atan2 (Vector.y toCenter) (Vector.x toCenter)\<rparr>))
             else (False, s))
      in if \<not> danger
         then scanNearby (heap wd) this (checkPos s1) (nearbyOfBot s1 wd) s1
         else (danger, s1))"

definition Bot_scan :: "real \<Rightarrow> nat \<Rightarrow> Snake \<Rightarrow> World \<Rightarrow> Snake \<times> World" where
  "Bot_scan dt this s wd =
     (let (danger, s2) = dangerChecks this s wd
      in if \<not> danger then wander dt s2 wd
         else (s2\<lparr>wantBoost := True\<rparr>, wd))"

definition shouldScan :: "Snake \<Rightarrow> World \<Rightarrow> bool" where
  "shouldScan this wd = ((int (frameCount wd) + id_snake this) mod 5 = 0)"

definition Bot_update :: "real \<Rightarrow> nat \<Rightarrow> World \<Rightarrow> World" where
  "Bot_update dt this wd =
     (case heap wd this of
        None \<Rightarrow> wd
      | Some s \<Rightarrow>
          if dead s then wd
          else (let (s', w') = (if shouldScan s wd then Bot_scan dt this s wd else (s, wd))
                in Snake_update dt this (w'\<lparr>heap := (heap w')(this \<mapsto> s')\<rparr>)))"

section \<open>Collisions\<close>

text \<open>
  Food pickup of one snake: the loop
  \<^verbatim>\<open>for (let i = foods.length - 1; i >= 0; i--)\<close>; \<open>foodStep i\<close> is its body at
  index \<open>i\<close>, and \<open>foodLoop n\<close> runs the indices \<open>n - 1\<close> down to 0.  The loop
  starts with \<open>n\<close> the length of the list, and \<^verbatim>\<open>splice(i, 1)\<close> leaves the items
  below \<open>i\<close> in place, so every index read is in range.  The power-up loop has
  the same shape.
\<close>

definition foodStep :: "nat \<Rightarrow> Snake \<times> Food list \<Rightarrow> Snake \<times> Food list" where
  "foodStep i st =
     (let s = fst st; fs = snd st; f = fs ! i
      in if \<bar>Vector.x (Snake.pos s) - Vector.x (Food.pos f)\<bar> > width s + Food.radius f
         then (s, fs)
         else if \<bar>Vector.y (Snake.pos s) - Vector.y (Food.pos f)\<bar> > width s + Food.radius f
         then (s, fs)
         else if Vector_dist (Snake.pos s) (Food.pos f) < width s / 2 + Food.radius f
         then (Snake_grow (value f) s, take i fs @ drop (Suc i) fs)
         else (s, fs))"

fun foodLoop :: "nat \<Rightarrow> Snake \<times> Food list \<Rightarrow> Snake \<times> Food list" where
  "foodLoop 0 st = st"
| "foodLoop (Suc i) st = foodLoop i (foodStep i st)"

definition powerupStep :: "nat \<Rightarrow> Snake \<times> PowerUp list \<Rightarrow> Snake \<times> PowerUp list" where
  "powerupStep i st =
     (let s = fst st; ps = snd st; p = ps ! i
      in if Vector_dist (Snake.pos s) (PowerUp.pos p) < width s / 2 + PowerUp.radius p
         then (s\<lparr>Snake.multiplier := PowerUp.multiplier p, multiplierTimer := 10\<rparr>,
               take i ps @ drop (Suc i) ps)
         else (s, ps))"

fun powerupLoop :: "nat \<Rightarrow> Snake \<times> PowerUp list \<Rightarrow> Snake \<times> PowerUp list" where
  "powerupLoop 0 st = st"
| "powerupLoop (Suc i) st = powerupLoop i (powerupStep i st)"

text \<open>The first loop over \<^verbatim>\<open>allSnakes\<close>: food and power-ups.\<close>

fun pickups :: "nat list \<Rightarrow> World \<Rightarrow> World" where
  "pickups [] wd = wd"
| "pickups (r # rest) wd =
     (case heap wd r of
        None \<Rightarrow> pickups rest wd
      | Some s \<Rightarrow>
          if dead s then pickups rest wd
          else (let (s1, fs) = foodLoop (length (foods wd)) (s, foods wd);
                    (s2, ps) = powerupLoop (length (powerups wd)) (s1, powerups wd)
                in pickups rest
                     (wd\<lparr>heap := (heap wd)(r \<mapsto> s2), foods := fs, powerups := ps\<rparr>)))"

text \<open>
  Head against body: the sampling loop
  \<^verbatim>\<open>for (let i = 0; i < s2.path.length; i += step)\<close> returns whether some sampled
  point of the body is closer to the head than \<^verbatim>\<open>minDist\<close>; the stride is
  \<^verbatim>\<open>Math.max(2, ...)\<close>, hence positive (the test \<open>0 < step\<close> only makes the
  recursion well-founded for every argument).
\<close>

function bodyHit :: "Vector \<Rightarrow> real \<Rightarrow> Vector list \<Rightarrow> nat \<Rightarrow> nat \<Rightarrow> bool" where
  "bodyHit headPos minDist bodyPath step i =
     (if i < length bodyPath \<and> 0 < step
      then (if Vector_dist headPos (bodyPath ! i) < minDist then True
            else bodyHit headPos minDist bodyPath step (i + step))
      else False)"
  by pat_completeness auto
termination
  by (relation "measure (\<lambda>(headPos, minDist, bodyPath, step, i). length bodyPath - i)") auto

declare bodyHit.simps [simp del]

definition minDist :: "Snake \<Rightarrow> Snake \<Rightarrow> real" where
  "minDist a1 a2 = width a1 * 0.35 + width a2 / 2"

definition headHitsBody :: "Snake \<Rightarrow> Snake \<Rightarrow> bool" where
  "headHitsBody a1 a2 =
     (let step = nat (max 2 \<lfloor>width a2 / 5\<rfloor>)
      in bodyHit (Snake.pos a1) (minDist a1 a2) (path a2) step 0)"

text \<open>What the body of the sampling loop does on a hit, for the head owner \<open>s1\<close>.\<close>

definition die :: "nat \<Rightarrow> Snake \<Rightarrow> World \<Rightarrow> World" where
  "die s1 a1 wd =
     (let a1' = a1\<lparr>dead := True\<rparr>;
          w1 = wd\<lparr>heap := (heap wd)(s1 \<mapsto> a1')\<rparr>;
          w2 = spawnParticles (Snake.pos a1') 50 (Snake.color a1') w1
      in dropFood a1' w2)"

text \<open>
  The loop \<^verbatim>\<open>for (const s2 of nearby)\<close> for a live \<open>s1\<close>; it ends at the first hit
  (\<^verbatim>\<open>if (s1.dead) break\<close>).
\<close>

fun scanBodies :: "nat \<Rightarrow> Snake \<Rightarrow> nat list \<Rightarrow> World \<Rightarrow> World" where
  "scanBodies s1 a1 [] wd = wd"
| "scanBodies s1 a1 (s2 # rest) wd =
     (if s1 = s2 then scanBodies s1 a1 rest wd
      else (case heap wd s2 of
              None \<Rightarrow> scanBodies s1 a1 rest wd
            | Some a2 \<Rightarrow>
                if dead a2 then scanBodies s1 a1 rest wd
                else if headHitsBody a1 a2 then die s1 a1 wd
                else scanBodies s1 a1 rest wd))"

text \<open>The second loop over \<^verbatim>\<open>allSnakes\<close>: snake against snake.\<close>

fun snakeVsSnake :: "nat list \<Rightarrow> World \<Rightarrow> World" where
  "snakeVsSnake [] wd = wd"
| "snakeVsSnake (s1 # rest) wd =
     (case heap wd s1 of
        None \<Rightarrow> snakeVsSnake rest wd
      | Some a1 \<Rightarrow>
          if dead a1 then snakeVsSnake rest wd
          else (let nearby = SpatialHash_retrieve
                       \<lparr>Rect.x = Vector.x (Snake.pos a1) - 100,
                        y = Vector.y (Snake.pos a1) - 100, w = 200, h = 200\<rparr>
                       (spatialHash wd)
                in snakeVsSnake rest (scanBodies s1 a1 nearby wd)))"

definition gameOver :: "World \<Rightarrow> World" where
  "gameOver wd = wd\<lparr>gameRunning := False\<rparr>"

definition checkCollisions :: "World \<Rightarrow> World" where
  "checkCollisions wd =
     (let allSnakes = player wd # bots wd;
          w1 = pickups allSnakes wd;
          w2 = snakeVsSnake allSnakes w1
      in case heap w2 (player w2) of
           None \<Rightarrow> w2
         | Some p \<Rightarrow> if dead p then gameOver w2 else w2)"

section \<open>Notions used to state the properties\<close>

text \<open>
  The cell key of a position, the content of a cell (empty when the key is
  absent), a sequence of \<^verbatim>\<open>insert\<close> calls, and the set of cell keys that the two
  loops of \<^verbatim>\<open>retrieve\<close> visit for a rectangle.
\<close>

definition cellOf :: "real \<Rightarrow> Vector \<Rightarrow> int \<times> int" where
  "cellOf cs p = (\<lfloor>Vector.x p / cs\<rfloor>, \<lfloor>Vector.y p / cs\<rfloor>)"

definition cellContent :: "SpatialHash \<Rightarrow> int \<times> int \<Rightarrow> nat list" where
  "cellContent sh k = (case grid sh k of None \<Rightarrow> [] | Some cell \<Rightarrow> cell)"

definition insertAll :: "(nat \<times> Vector) list \<Rightarrow> SpatialHash \<Rightarrow> SpatialHash" where
  "insertAll objs sh = fold (\<lambda>(obj, p). SpatialHash_insert obj p) objs sh"

definition cellRange :: "Rect \<Rightarrow> real \<Rightarrow> (int \<times> int) set" where
  "cellRange rect cs =
     {\<lfloor>Rect.x rect / cs\<rfloor> .. \<lfloor>(Rect.x rect + Rect.w rect) / cs\<rfloor>}
     \<times> {\<lfloor>Rect.y rect / cs\<rfloor> .. \<lfloor>(Rect.y rect + Rect.h rect) / cs\<rfloor>}"

text \<open>
  A neighbour threatens the bot when it is another, live snake with a sampled path
  point closer to the probe point than the sum of the two widths; the samples are
  the indices visited by the sampling loop of the scan.
\<close>

definition threatens :: "(nat \<Rightarrow> Snake option) \<Rightarrow> nat \<Rightarrow> Vector \<Rightarrow> Snake \<Rightarrow> nat \<Rightarrow> bool" where
  "threatens hp this cp s other =
     (other \<noteq> this
      \<and> (\<exists>ot. hp other = Some ot \<and> \<not> dead ot
            \<and> (\<exists>k. k * max 5 (length (path ot) div 10) < length (path ot)
                  \<and> Vector_dist cp (path ot ! (k * max 5 (length (path ot) div 10)))
                      < width s + width ot)))"

text \<open>The three tests of the food loop that an item passes to be picked up.\<close>

definition eats :: "Snake \<Rightarrow> Food \<Rightarrow> bool" where
  "eats s f =
     (\<not> \<bar>Vector.x (Snake.pos s) - Vector.x (Food.pos f)\<bar> > width s + Food.radius f
      \<and> \<not> \<bar>Vector.y (Snake.pos s) - Vector.y (Food.pos f)\<bar> > width s + Food.radius f
      \<and> Vector_dist (Snake.pos s) (Food.pos f) < width s / 2 + Food.radius f)"

section \<open>Concrete states for the examples\<close>

text \<open>
  A player snake as the constructor makes it for score 100 (width 65), at the
  origin with heading 0, and a world that holds it under reference 0.  Every draw
  of the random sequence of this world is 1/2.
\<close>

definition snake0 :: Snake where
  "snake0 = \<lparr>name = ''Player'', isBot = False, id_snake = 0,
     pos = \<lparr>Vector.x = 0, y = 0\<rparr>, angle = 0, targetAngle = 0, score = 100,
     width = 65, targetWidth = 65, path = [\<lparr>Vector.x = 0, y = 0\<rparr>],
     color = 0, color2 = 0, pattern = 0, dead = False, multiplier = 1,
     multiplierTimer = 0, changeDirTimer = 0, wantBoost = False, boostCooldown = 0\<rparr>"

definition world0 :: World where
  "world0 = \<lparr>heap = [0 \<mapsto> snake0], player = 0, bots = [], foods = [], powerups = [],
     particles = [], spatialHash = SpatialHash_new 1000, mouseDown = False,
     frameCount = 0, gameRunning = True, rnd = (\<lambda>n. 1 / 2), rndi = 0\<rparr>"

text \<open>A food item of value 1 next to the head of \<open>snake0\<close>.\<close>

definition food0 :: Food where
  "food0 = \<lparr>Food.pos = \<lparr>Vector.x = 10, y = 0\<rparr>, value = 1, radius = 18, emoji = 0,
     rotation = 0, floatOffset = 0\<rparr>"

text \<open>The same snake one unit inside the boundary, heading outwards.\<close>

definition snakeEdge :: Snake where
  "snakeEdge = snake0\<lparr>Snake.pos := \<lparr>Vector.x = 99999, y = 0\<rparr>\<rparr>"

text \<open>The same snake 100 units away from its only path point.\<close>

definition snakeFar :: Snake where
  "snakeFar = snake0\<lparr>Snake.pos := \<lparr>Vector.x = 100, y = 0\<rparr>\<rparr>"

text \<open>
  A bot whose only path point lies 10 units from the head of \<open>snake0\<close>, and a
  world with both snakes in the store and in the grid.
\<close>

definition snakeB :: Snake where
  "snakeB = snake0\<lparr>name := ''Bot'', isBot := True,
     Snake.pos := \<lparr>Vector.x = 60, y = 0\<rparr>, path := [\<lparr>Vector.x = 10, y = 0\<rparr>]\<rparr>"

definition world2 :: World where
  "world2 = world0\<lparr>heap := [0 \<mapsto> snake0, 1 \<mapsto> snakeB],
     bots := [1],
     spatialHash := insertAll [(0, Snake.pos snake0), (1, Snake.pos snakeB)] (SpatialHash_new 1000)\<rparr>"

text \<open>
  A bot at the origin with heading 0 (probe point \<open>(460, 0)\<close>), a snake whose
  head is in the grid cell \<open>(-1, -1)\<close> and whose sixth path point is 100 units from
  the probe point, and a world with both in the store and in the grid.
\<close>

definition botA :: Snake where
  "botA = snake0\<lparr>name := ''Bot'', isBot := True\<rparr>"

definition snakeC :: Snake where
  "snakeC = snake0\<lparr>Snake.pos := \<lparr>Vector.x = - 10, y = - 400\<rparr>,
     path := [\<lparr>Vector.x = - 10, y = - 400\<rparr>, \<lparr>Vector.x = 84, y = - 340\<rparr>,
              \<lparr>Vector.x = 178, y = - 280\<rparr>, \<lparr>Vector.x = 272, y = - 220\<rparr>,
              \<lparr>Vector.x = 366, y = - 160\<rparr>, \<lparr>Vector.x = 460, y = - 100\<rparr>]\<rparr>"

definition world3 :: World where
  "world3 = world0\<lparr>heap := [0 \<mapsto> botA, 1 \<mapsto> snakeC],
     player := 1, bots := [0],
     spatialHash := insertAll [(1, Snake.pos snakeC), (0, Snake.pos botA)] (SpatialHash_new 1000)\<rparr>"

text \<open>
  A long bot whose head is 3370 units from the head of \<open>snake0\<close>, in another
  grid cell, and whose body runs through the origin; a world with both snakes in
  the store and in the grid.
\<close>

definition snakeD :: Snake where
  "snakeD = snake0\<lparr>name := ''Bot'', isBot := True,
     Snake.pos := \<lparr>Vector.x = - 3370, y = 0\<rparr>, score := 40000,
     width := 130, targetWidth := 130,
     path := map (\<lambda>k. \<lparr>Vector.x = 130 * real k - 3370, y = 0\<rparr>) [0..<30]\<rparr>"

definition worldFar :: World where
  "worldFar = world0\<lparr>heap := [0 \<mapsto> snake0, 1 \<mapsto> snakeD],
     bots := [1],
     spatialHash := insertAll [(0, Snake.pos snake0), (1, Snake.pos snakeD)] (SpatialHash_new 1000)\<rparr>"

section \<open>Properties of the vector helper and of the width law\<close>

lemma Vector_mag_norm:
  assumes "Vector_mag v \<noteq> 0"
  shows "Vector_mag (Vector_norm v) = 1"
proof -
  let ?m = "Vector_mag v"
  have m2: "?m * ?m = Vector.x v * Vector.x v + Vector.y v * Vector.y v"
    unfolding Vector_mag_def by (simp add: sum_nonneg)
  have mpos: "0 < ?m"
    using assms unfolding Vector_mag_def
    by (metis less_eq_real_def real_sqrt_ge_zero zero_le_mult_iff add_nonneg_nonneg zero_le_square)
  have "Vector_mag (Vector_norm v)
      = sqrt ((Vector.x v / ?m) * (Vector.x v / ?m) + (Vector.y v / ?m) * (Vector.y v / ?m))"
    using assms by (simp add: Vector_norm_def Let_def Vector_mag_def)
  also have "(Vector.x v / ?m) * (Vector.x v / ?m) + (Vector.y v / ?m) * (Vector.y v / ?m)
      = (Vector.x v * Vector.x v + Vector.y v * Vector.y v) / (?m * ?m)"
    by (simp add: add_divide_distrib)
  also have "\<dots> = 1" unfolding m2 [symmetric] using mpos by simp
  finally show ?thesis by simp
qed

text \<open>
  C9.  Normalising a vector of magnitude 0 returns the zero vector (the quotient
  by the magnitude is not formed); normalising any other vector returns a vector
  of magnitude 1, in exact arithmetic.
\<close>

theorem Vector_norm_zero_or_unit:
  "(Vector_mag v = 0 \<longrightarrow> Vector_norm v = \<lparr>Vector.x = 0, y = 0\<rparr>)
   \<and> (Vector_mag v \<noteq> 0 \<longrightarrow> Vector_mag (Vector_norm v) = 1)"
  using Vector_mag_norm by (simp add: Vector_norm_def)

theorem Vector_norm_zero_or_unit_witness:
  "Vector_mag \<lparr>Vector.x = 0, y = 0\<rparr> = 0
   \<and> Vector_norm \<lparr>Vector.x = 0, y = 0\<rparr> = \<lparr>Vector.x = 0, y = 0\<rparr>
   \<and> Vector_mag \<lparr>Vector.x = 3, y = 0\<rparr> \<noteq> 0
   \<and> Vector_mag (Vector_norm \<lparr>Vector.x = 3, y = 0\<rparr>) = 1"
  using Vector_norm_zero_or_unit [of "\<lparr>Vector.x = 0, y = 0\<rparr>"]
    Vector_norm_zero_or_unit [of "\<lparr>Vector.x = 3, y = 0\<rparr>"]
  by (simp add: Vector_mag_def)

lemma log10_100: "log 10 (100::real) = 2"
proof -
  have "log 10 ((10::real) ^ 2) = 2" by (subst log_pow_cancel) simp_all
  then show ?thesis by simp
qed

lemma calculateWidth_mono:
  assumes "score a \<le> score b"
  shows "Snake_calculateWidth a \<le> Snake_calculateWidth b"
proof -
  have "max 10 (score a) \<le> max 10 (score b)" using assms by simp
  then have "log 10 (max 10 (score a)) \<le> log 10 (max 10 (score b))"
    by (subst log_le_cancel_iff) simp_all
  then have "15 + log 10 (max 10 (score a)) * 25 \<le> 15 + log 10 (max 10 (score b)) * 25"
    by simp
  then show ?thesis unfolding Snake_calculateWidth_def
    by (intro min.mono order_refl)
qed

text \<open>
  C5.  The score-derived target width is \<open>min 500 (15 + log10 (max 10 score) * 25)\<close>;
  at score 100 it is exactly 65; and it is a non-decreasing function of the score.
\<close>

theorem calculateWidth_law:
  "Snake_calculateWidth s = min 500 (15 + log 10 (max 10 (score s)) * 25)
   \<and> (score s = 100 \<longrightarrow> Snake_calculateWidth s = 65)
   \<and> (score s \<le> score s' \<longrightarrow> Snake_calculateWidth s \<le> Snake_calculateWidth s')"
  using calculateWidth_mono [of s s'] by (simp add: Snake_calculateWidth_def log10_100)

theorem calculateWidth_law_witness:
  "score snake0 = 100 \<and> Snake_calculateWidth snake0 = 65
   \<and> score snake0 \<le> score (snake0\<lparr>score := 1000\<rparr>)
   \<and> Snake_calculateWidth snake0 \<le> Snake_calculateWidth (snake0\<lparr>score := 1000\<rparr>)"
  using calculateWidth_law [of snake0 "snake0\<lparr>score := 1000\<rparr>"]
  by (simp add: snake0_def)

section \<open>Properties of the spatial hash\<close>

lemma cellSize_insert [simp]: "cellSize (SpatialHash_insert obj p sh) = cellSize sh"
  by (simp add: SpatialHash_insert_def Let_def split: option.splits)

lemma cellContent_insert:
  "cellContent (SpatialHash_insert obj p sh) k
     = cellContent sh k @ (if cellOf (cellSize sh) p = k then [obj] else [])"
  by (auto simp: SpatialHash_insert_def cellContent_def cellOf_def Let_def split: option.splits)

lemma cellSize_insertAll [simp]: "cellSize (insertAll objs sh) = cellSize sh"
  unfolding insertAll_def by (induction objs arbitrary: sh) (auto)

lemma cellContent_insertAll:
  "cellContent (insertAll objs sh) k
     = cellContent sh k @ map fst (filter (\<lambda>op. cellOf (cellSize sh) (snd op) = k) objs)"
proof (induction objs arbitrary: sh)
  case Nil
  then show ?case by (simp add: insertAll_def)
next
  case (Cons a objs)
  obtain obj p where a: "a = (obj, p)" by (cases a)
  have "insertAll (a # objs) sh = insertAll objs (SpatialHash_insert obj p sh)"
    by (simp add: insertAll_def a)
  then show ?case
    by (simp add: Cons.IH cellContent_insert a)
qed

lemma set_retrieve:
  "set (SpatialHash_retrieve rect sh) = (\<Union>k \<in> cellRange rect (cellSize sh). set (cellContent sh k))"
  by (auto simp: SpatialHash_retrieve_def cellRange_def cellContent_def Let_def)

lemma cell_in_range:
  assumes cs: "0 < cs"
    and lo: "Rect.x rect \<le> of_int (fst (cellOf cs p)) * cs"
    and hi: "of_int (fst (cellOf cs p) + 1) * cs \<le> Rect.x rect + Rect.w rect"
    and lo': "Rect.y rect \<le> of_int (snd (cellOf cs p)) * cs"
    and hi': "of_int (snd (cellOf cs p) + 1) * cs \<le> Rect.y rect + Rect.h rect"
  shows "cellOf cs p \<in> cellRange rect cs"
proof -
  have mono_lo: "\<lfloor>a / cs\<rfloor> \<le> c" if "a \<le> of_int c * cs" for a :: real and c :: int
  proof -
    have "a / cs \<le> of_int c" using that cs by (simp add: pos_divide_le_eq)
    then show ?thesis by (simp add: floor_le_iff)
  qed
  have mono_hi: "c \<le> \<lfloor>a / cs\<rfloor>" if "of_int (c + 1) * cs \<le> a" for a :: real and c :: int
  proof -
    have "of_int (c + 1) \<le> a / cs" using that cs by (simp add: pos_le_divide_eq)
    then have "c + 1 \<le> \<lfloor>a / cs\<rfloor>" by (simp add: le_floor_iff)
    then show ?thesis by simp
  qed
  obtain cx cy where k: "cellOf cs p = (cx, cy)" by (cases "cellOf cs p")
  show ?thesis
    using mono_lo [OF lo] mono_hi [OF hi] mono_lo [OF lo'] mono_hi [OF hi']
    by (simp add: k cellRange_def)
qed

text \<open>
  C8.  After any sequence of inserts into a grid with a positive cell size, a
  query rectangle (of non-negative width and height) that contains the whole cell
  of an inserted object returns that object; and when no inserted object has its
  cell among the cells visited for the rectangle, the query on a grid filled from
  empty returns the empty list.
\<close>

theorem retrieve_complete:
  "(0 < cellSize sh \<and> (obj, p) \<in> set objs
     \<and> 0 \<le> Rect.w rect \<and> 0 \<le> Rect.h rect
     \<and> Rect.x rect \<le> of_int (fst (cellOf (cellSize sh) p)) * cellSize sh
     \<and> of_int (fst (cellOf (cellSize sh) p) + 1) * cellSize sh \<le> Rect.x rect + Rect.w rect
     \<and> Rect.y rect \<le> of_int (snd (cellOf (cellSize sh) p)) * cellSize sh
     \<and> of_int (snd (cellOf (cellSize sh) p) + 1) * cellSize sh \<le> Rect.y rect + Rect.h rect
     \<longrightarrow> obj \<in> set (SpatialHash_retrieve rect (insertAll objs sh)))
   \<and> ((\<forall>op \<in> set objs. cellOf cs (snd op) \<notin> cellRange rect cs)
     \<longrightarrow> SpatialHash_retrieve rect (insertAll objs (SpatialHash_new cs)) = [])"
proof (intro conjI impI)
  assume a: "0 < cellSize sh \<and> (obj, p) \<in> set objs
     \<and> 0 \<le> Rect.w rect \<and> 0 \<le> Rect.h rect
     \<and> Rect.x rect \<le> of_int (fst (cellOf (cellSize sh) p)) * cellSize sh
     \<and> of_int (fst (cellOf (cellSize sh) p) + 1) * cellSize sh \<le> Rect.x rect + Rect.w rect
     \<and> Rect.y rect \<le> of_int (snd (cellOf (cellSize sh) p)) * cellSize sh
     \<and> of_int (snd (cellOf (cellSize sh) p) + 1) * cellSize sh \<le> Rect.y rect + Rect.h rect"
  then have r: "cellOf (cellSize sh) p \<in> cellRange rect (cellSize sh)"
    by (intro cell_in_range) simp_all
  have "obj \<in> set (cellContent (insertAll objs sh) (cellOf (cellSize sh) p))"
    using a by (force simp: cellContent_insertAll)
  then show "obj \<in> set (SpatialHash_retrieve rect (insertAll objs sh))"
    using r by (auto simp: set_retrieve)
next
  assume a: "\<forall>op \<in> set objs. cellOf cs (snd op) \<notin> cellRange rect cs"
  have e: "cellContent (SpatialHash_new cs) k = []" for k
    by (simp add: cellContent_def SpatialHash_new_def)
  have c: "cellSize (SpatialHash_new cs) = cs"
    by (simp add: SpatialHash_new_def)
  have "cellContent (insertAll objs (SpatialHash_new cs)) k = []"
    if "k \<in> cellRange rect cs" for k
    using a that by (auto simp: cellContent_insertAll e c filter_empty_conv)
  then have "set (SpatialHash_retrieve rect (insertAll objs (SpatialHash_new cs))) = {}"
    by (simp add: set_retrieve c)
  then show "SpatialHash_retrieve rect (insertAll objs (SpatialHash_new cs)) = []"
    by simp
qed

theorem retrieve_complete_witness:
  "0 \<in> set (SpatialHash_retrieve \<lparr>Rect.x = 0, y = 0, w = 1000, h = 1000\<rparr>
       (insertAll [(0, \<lparr>Vector.x = 500, y = 500\<rparr>), (1, \<lparr>Vector.x = 2500, y = 2500\<rparr>)]
          (SpatialHash_new 1000)))
   \<and> SpatialHash_retrieve \<lparr>Rect.x = 5000, y = 5000, w = 100, h = 100\<rparr>
       (insertAll [(0, \<lparr>Vector.x = 500, y = 500\<rparr>), (1, \<lparr>Vector.x = 2500, y = 2500\<rparr>)]
          (SpatialHash_new 1000)) = []"
  using retrieve_complete [of "SpatialHash_new 1000" 0 "\<lparr>Vector.x = 500, y = 500\<rparr>"
      "[(0, \<lparr>Vector.x = 500, y = 500\<rparr>), (1, \<lparr>Vector.x = 2500, y = 2500\<rparr>)]"
      "\<lparr>Rect.x = 0, y = 0, w = 1000, h = 1000\<rparr>" 1000]
    retrieve_complete [of "SpatialHash_new 1000" 0 "\<lparr>Vector.x = 500, y = 500\<rparr>"
      "[(0, \<lparr>Vector.x = 500, y = 500\<rparr>), (1, \<lparr>Vector.x = 2500, y = 2500\<rparr>)]"
      "\<lparr>Rect.x = 5000, y = 5000, w = 100, h = 100\<rparr>" 1000]
  by (simp add: SpatialHash_new_def cellOf_def cellRange_def)

section \<open>Food pickup\<close>

lemma Vector_dist_x_axis [simp]:
  "Vector_dist \<lparr>Vector.x = a, y = c\<rparr> \<lparr>Vector.x = b, y = c\<rparr> = \<bar>a - b\<bar>"
  by (simp add: Vector_dist_def)

lemma Vector_mag_x_axis [simp]: "Vector_mag \<lparr>Vector.x = a, y = 0\<rparr> = \<bar>a\<bar>"
  by (simp add: Vector_mag_def)

lemma abs_le_dist_x: "\<bar>Vector.x a - Vector.x b\<bar> \<le> Vector_dist a b"
  unfolding Vector_dist_def by (rule real_sqrt_ge_abs1)

lemma abs_le_dist_y: "\<bar>Vector.y a - Vector.y b\<bar> \<le> Vector_dist a b"
  unfolding Vector_dist_def by (rule real_sqrt_ge_abs2)

lemma foodStep_hit:
  assumes w: "0 \<le> width s"
    and d: "Vector_dist (Snake.pos s) (Food.pos (fs ! i)) < width s / 2 + Food.radius (fs ! i)"
  shows "foodStep i (s, fs) = (Snake_grow (value (fs ! i)) s, take i fs @ drop (Suc i) fs)"
proof -
  have "\<bar>Vector.x (Snake.pos s) - Vector.x (Food.pos (fs ! i))\<bar> \<le> width s + Food.radius (fs ! i)"
    using abs_le_dist_x [of "Snake.pos s" "Food.pos (fs ! i)"] w d by linarith
  moreover have "\<bar>Vector.y (Snake.pos s) - Vector.y (Food.pos (fs ! i))\<bar> \<le> width s + Food.radius (fs ! i)"
    using abs_le_dist_y [of "Snake.pos s" "Food.pos (fs ! i)"] w d by linarith
  ultimately show ?thesis using d by (simp add: foodStep_def Let_def)
qed

text \<open>
  C6.  In the food loop of a live snake (of non-negative width, as every snake
  has), when the circular test passes for the food item at index \<open>i\<close>, the step
  increases the score by exactly \<open>value * multiplier * 10\<close>, changes nothing else
  of the snake, and removes the item at index \<open>i\<close> and no other from the food
  collection.  A food of value 1 picked up with multiplier 5 adds exactly 50.
\<close>

theorem food_pickup:
  "i < length fs \<and> 0 \<le> width s
     \<and> Vector_dist (Snake.pos s) (Food.pos (fs ! i)) < width s / 2 + Food.radius (fs ! i)
   \<longrightarrow> foodStep i (s, fs)
         = (s\<lparr>score := score s + value (fs ! i) * Snake.multiplier s * 10\<rparr>,
            take i fs @ drop (Suc i) fs)
       \<and> length (snd (foodStep i (s, fs))) = length fs - 1
       \<and> (value (fs ! i) = 1 \<and> Snake.multiplier s = 5
            \<longrightarrow> score (fst (foodStep i (s, fs))) = score s + 50)"
  by (auto simp: foodStep_hit Snake_grow_def)

theorem food_pickup_witness:
  "foodStep 0 (snake0\<lparr>Snake.multiplier := 5\<rparr>, [food0])
     = (snake0\<lparr>Snake.multiplier := 5, score := 150\<rparr>, [])
   \<and> score (fst (foodStep 0 (snake0\<lparr>Snake.multiplier := 5\<rparr>, [food0]))) = score snake0 + 50"
  using food_pickup [of 0 "[food0]" "snake0\<lparr>Snake.multiplier := 5\<rparr>"]
  by (simp add: snake0_def food0_def)

section \<open>Properties of Snake.update\<close>

lemma multiplierDecay_frame [simp]:
  "score (multiplierDecay dt s) = score s"
  "isBot (multiplierDecay dt s) = isBot s"
  "wantBoost (multiplierDecay dt s) = wantBoost s"
  "path (multiplierDecay dt s) = path s"
  "width (multiplierDecay dt s) = width s"
  "targetWidth (multiplierDecay dt s) = targetWidth s"
  "Snake.pos (multiplierDecay dt s) = Snake.pos s"
  "dead (multiplierDecay dt s) = dead s"
  "Snake.color (multiplierDecay dt s) = Snake.color s"
  "angle (multiplierDecay dt s) = angle s"
  "targetAngle (multiplierDecay dt s) = targetAngle s"
  by (simp_all add: multiplierDecay_def Let_def)

lemma turningPhysics_frame [simp]:
  "score (turningPhysics dt s) = score s"
  "isBot (turningPhysics dt s) = isBot s"
  "wantBoost (turningPhysics dt s) = wantBoost s"
  "path (turningPhysics dt s) = path s"
  "width (turningPhysics dt s) = width s"
  "targetWidth (turningPhysics dt s) = targetWidth s"
  "Snake.pos (turningPhysics dt s) = Snake.pos s"
  "dead (turningPhysics dt s) = dead s"
  "Snake.color (turningPhysics dt s) = Snake.color s"
  by (simp_all add: turningPhysics_def Let_def)

lemma boosting_cong:
  "isBot a = isBot b \<Longrightarrow> wantBoost a = wantBoost b \<Longrightarrow> boosting a wd = boosting b wd"
  by (simp add: boosting_def)

text \<open>The snake returned by the speed stage: only the score may change.\<close>

lemma speedAndBoost_snake:
  "fst (snd (speedAndBoost dt s wd))
     = (if boosting s wd \<and> 50 < score s then s\<lparr>score := score s - dt * 25\<rparr> else s)"
  by (simp add: speedAndBoost_def Let_def split: prod.splits)

lemma speedAndBoost_refused:
  "score s \<le> 50 \<Longrightarrow>
   speedAndBoost dt s wd
     = (if isBot s \<and> width s > 100 then baseSpeed CONFIG * 0.9 else baseSpeed CONFIG, s, wd)"
  by (simp add: speedAndBoost_def Let_def)

lemma speedAndBoost_frame [simp]:
  "path (fst (snd (speedAndBoost dt s wd))) = path s"
  "width (fst (snd (speedAndBoost dt s wd))) = width s"
  "targetWidth (fst (snd (speedAndBoost dt s wd))) = targetWidth s"
  "dead (fst (snd (speedAndBoost dt s wd))) = dead s"
  "isBot (fst (snd (speedAndBoost dt s wd))) = isBot s"
  "Snake.color (fst (snd (speedAndBoost dt s wd))) = Snake.color s"
  "Snake.pos (fst (snd (speedAndBoost dt s wd))) = Snake.pos s"
  "angle (fst (snd (speedAndBoost dt s wd))) = angle s"
  by (simp_all add: speedAndBoost_snake)

lemma speedAndBoost_score:
  "score (fst (snd (speedAndBoost dt s wd)))
     = (if boosting s wd \<and> 50 < score s then score s - dt * 25 else score s)"
  by (simp add: speedAndBoost_snake)

lemma moveHead_frame [simp]:
  "path (fst (moveHead dt s wd)) = path s"
  "width (fst (moveHead dt s wd)) = width s"
  "targetWidth (fst (moveHead dt s wd)) = targetWidth s"
  "dead (fst (moveHead dt s wd)) = dead s"
  "isBot (fst (moveHead dt s wd)) = isBot s"
  "Snake.color (fst (moveHead dt s wd)) = Snake.color s"
  by (simp_all add: moveHead_def Let_def case_prod_beta)

lemma moveHead_score:
  "score (fst (moveHead dt s wd))
     = (if boosting s wd \<and> 50 < score s then score s - dt * 25 else score s)"
  by (simp add: moveHead_def Let_def case_prod_beta speedAndBoost_score
      boosting_cong [of "turningPhysics dt (multiplierDecay dt s)" s])

text \<open>The translated head: the old head plus the heading-aligned displacement.\<close>

lemma moveHead_pos:
  "Snake.pos (fst (moveHead dt s wd))
     = Vector_add (Snake.pos s)
         (Vector_mult \<lparr>Vector.x = cos (angle (turningPhysics dt (multiplierDecay dt s))),
                       y = sin (angle (turningPhysics dt (multiplierDecay dt s)))\<rparr>
            (fst (speedAndBoost dt (turningPhysics dt (multiplierDecay dt s)) wd) * dt))"
  by (simp add: moveHead_def Let_def case_prod_beta)

lemma pathManagement_frame [simp]:
  "score (pathManagement sp s) = score s"
  "width (pathManagement sp s) = width s"
  "Snake.pos (pathManagement sp s) = Snake.pos s"
  "dead (pathManagement sp s) = dead s"
  by (simp_all add: pathManagement_def Let_def)

lemma lengthManagement_frame [simp]:
  "score (lengthManagement sp s) = score s"
  "width (lengthManagement sp s) = width s"
  "Snake.pos (lengthManagement sp s) = Snake.pos s"
  "dead (lengthManagement sp s) = dead s"
  by (simp_all add: lengthManagement_def Let_def)

lemma smoothGrowth_frame [simp]:
  "score (smoothGrowth dt s) = score s"
  "path (smoothGrowth dt s) = path s"
  "Snake.pos (smoothGrowth dt s) = Snake.pos s"
  "dead (smoothGrowth dt s) = dead s"
  by (simp_all add: smoothGrowth_def Let_def)

text \<open>The two exits of the method.\<close>

lemma update_this_dead_exit:
  assumes "\<not> dead s" "Vector_mag (Snake.pos (fst (moveHead dt s wd))) > mapSize CONFIG"
  shows "Snake_update_this dt s wd
     = ((fst (moveHead dt s wd))\<lparr>dead := True\<rparr>,
        dropFood ((fst (moveHead dt s wd))\<lparr>dead := True\<rparr>)
          (spawnParticles (Snake.pos (fst (moveHead dt s wd))) 50
             (Snake.color s) (snd (moveHead dt s wd))))"
  using assms by (simp add: Snake_update_this_def Let_def case_prod_beta)

lemma update_this_live_exit:
  assumes "\<not> dead s" "\<not> Vector_mag (Snake.pos (fst (moveHead dt s wd))) > mapSize CONFIG"
  shows "Snake_update_this dt s wd
     = (smoothGrowth dt
          (lengthManagement (Snake_getPathSpacing (fst (moveHead dt s wd)))
             (pathManagement (Snake_getPathSpacing (fst (moveHead dt s wd)))
                (fst (moveHead dt s wd)))),
        snd (moveHead dt s wd))"
  using assms by (simp add: Snake_update_this_def Let_def case_prod_beta)

lemma update_this_score:
  "score (fst (Snake_update_this dt s wd))
     = (if \<not> dead s \<and> boosting s wd \<and> 50 < score s then score s - dt * 25 else score s)"
proof (cases "dead s")
  case True
  then show ?thesis by (simp add: Snake_update_this_def)
next
  case False
  show ?thesis
  proof (cases "Vector_mag (Snake.pos (fst (moveHead dt s wd))) > mapSize CONFIG")
    case True
    show ?thesis using False by (simp add: update_this_dead_exit [OF False True] moveHead_score)
  next
    case F2: False
    show ?thesis using False by (simp add: update_this_live_exit [OF False F2] moveHead_score)
  qed
qed

lemma Snake_update_heap_this:
  "heap wd this = Some s \<Longrightarrow>
   heap (Snake_update dt this wd) this = Some (fst (Snake_update_this dt s wd))"
  by (simp add: Snake_update_def case_prod_beta)

lemma Math_random_frame [simp]:
  "heap (snd (Math_random wd)) = heap wd"
  "particles (snd (Math_random wd)) = particles wd"
  "foods (snd (Math_random wd)) = foods wd"
  "mouseDown (snd (Math_random wd)) = mouseDown wd"
  by (simp_all add: Math_random_def)

lemma Food_new_frame [simp]:
  "heap (snd (Food_new fx fy val wd)) = heap wd"
  "particles (snd (Food_new fx fy val wd)) = particles wd"
  "foods (snd (Food_new fx fy val wd)) = foods wd"
  by (simp_all add: Food_new_def Let_def case_prod_beta)

lemma spawnParticles_loop_frame [simp]:
  "heap (spawnParticles_loop n p c wd) = heap wd"
  "foods (spawnParticles_loop n p c wd) = foods wd"
  "length (particles (spawnParticles_loop n p c wd)) = length (particles wd) + n"
  by (induction n arbitrary: wd; simp add: Let_def case_prod_beta)+

lemma spawnParticles_frame [simp]:
  "heap (spawnParticles p n c wd) = heap wd"
  "foods (spawnParticles p n c wd) = foods wd"
  "length (particles (spawnParticles p n c wd)) = length (particles wd) + n"
  by (simp_all add: spawnParticles_def)

lemma dropFood_body_frame [simp]:
  "heap (dropFood_body i sn wd) = heap wd"
  "particles (dropFood_body i sn wd) = particles wd"
  "length (foods (dropFood_body i sn wd)) = Suc (length (foods wd))"
  by (simp_all add: dropFood_body_def Let_def case_prod_beta)

lemma dropFood_loop_frame [simp]:
  "heap (dropFood_loop i step sn wd) = heap wd"
  "particles (dropFood_loop i step sn wd) = particles wd"
  by (induction i step sn wd rule: dropFood_loop.induct; subst dropFood_loop.simps; simp)+

lemma dropFood_frame [simp]:
  "heap (dropFood sn wd) = heap wd"
  "particles (dropFood sn wd) = particles wd"
  by (simp_all add: dropFood_def Let_def)

lemma speedAndBoost_world_frame [simp]:
  "heap (snd (snd (speedAndBoost dt s wd))) = heap wd"
  "particles (snd (snd (speedAndBoost dt s wd))) = particles wd"
  by (simp_all add: speedAndBoost_def Let_def case_prod_beta split: list.splits)

lemma moveHead_world_frame [simp]:
  "heap (snd (moveHead dt s wd)) = heap wd"
  "particles (snd (moveHead dt s wd)) = particles wd"
  by (simp_all add: moveHead_def Let_def case_prod_beta)

text \<open>
  C1.  For a live snake and any \<open>dt\<close>: when the head, after the translation of
  this tick, is farther from the origin than \<open>mapSize\<close>, the update returns the
  state reached by the translation with only the dead flag set.  The position is
  the translated one, path, width and target width are those before the update
  (path management, length management and width smoothing are skipped), and the
  world is the one after the burst of 50 particles and the food drop.
\<close>

theorem boundary_death:
  "\<not> dead s \<and> mapSize CONFIG < Vector_mag (Snake.pos (fst (moveHead dt s wd)))
   \<longrightarrow> fst (Snake_update_this dt s wd) = (fst (moveHead dt s wd))\<lparr>dead := True\<rparr>
     \<and> dead (fst (Snake_update_this dt s wd))
     \<and> Snake.pos (fst (Snake_update_this dt s wd)) = Snake.pos (fst (moveHead dt s wd))
     \<and> path (fst (Snake_update_this dt s wd)) = path s
     \<and> width (fst (Snake_update_this dt s wd)) = width s
     \<and> targetWidth (fst (Snake_update_this dt s wd)) = targetWidth s
     \<and> snd (Snake_update_this dt s wd)
         = dropFood (fst (Snake_update_this dt s wd))
             (spawnParticles (Snake.pos (fst (Snake_update_this dt s wd))) 50
                (Snake.color s) (snd (moveHead dt s wd)))
     \<and> length (particles (snd (Snake_update_this dt s wd))) = length (particles wd) + 50
     \<and> (heap wd this = Some s
          \<longrightarrow> heap (Snake_update dt this wd) this = Some ((fst (moveHead dt s wd))\<lparr>dead := True\<rparr>))"
proof (intro impI)
  assume a: "\<not> dead s \<and> mapSize CONFIG < Vector_mag (Snake.pos (fst (moveHead dt s wd)))"
  then have d: "\<not> dead s"
    and m: "mapSize CONFIG < Vector_mag (Snake.pos (fst (moveHead dt s wd)))"
    by simp_all
  note e = update_this_dead_exit [OF d m]
  show "fst (Snake_update_this dt s wd) = (fst (moveHead dt s wd))\<lparr>dead := True\<rparr>
     \<and> dead (fst (Snake_update_this dt s wd))
     \<and> Snake.pos (fst (Snake_update_this dt s wd)) = Snake.pos (fst (moveHead dt s wd))
     \<and> path (fst (Snake_update_this dt s wd)) = path s
     \<and> width (fst (Snake_update_this dt s wd)) = width s
     \<and> targetWidth (fst (Snake_update_this dt s wd)) = targetWidth s
     \<and> snd (Snake_update_this dt s wd)
         = dropFood (fst (Snake_update_this dt s wd))
             (spawnParticles (Snake.pos (fst (Snake_update_this dt s wd))) 50
                (Snake.color s) (snd (moveHead dt s wd)))
     \<and> length (particles (snd (Snake_update_this dt s wd))) = length (particles wd) + 50
     \<and> (heap wd this = Some s
          \<longrightarrow> heap (Snake_update dt this wd) this = Some ((fst (moveHead dt s wd))\<lparr>dead := True\<rparr>))"
    by (simp add: e Snake_update_heap_this)
qed

lemma wrap_zero [simp]: "wrapUp 0 = 0" "wrapDown 0 = 0"
proof -
  have "\<not> pi \<le> 0" using pi_gt_zero by linarith
  then show "wrapUp 0 = 0" by (simp add: wrapUp.simps [of 0])
  show "wrapDown 0 = 0" by (simp add: wrapDown.simps [of 0])
qed

lemma moveHead_snakeEdge:
  "Snake.pos (fst (moveHead (1 / 20) snakeEdge world0)) = \<lparr>Vector.x = 200043 / 2, y = 0\<rparr>"
  by (simp add: moveHead_pos turningPhysics_def multiplierDecay_def speedAndBoost_def
      boosting_def snakeEdge_def snake0_def world0_def CONFIG_def Vector_add_def Vector_mult_def)

theorem boundary_death_witness:
  "\<not> dead snakeEdge
   \<and> mapSize CONFIG < Vector_mag (Snake.pos (fst (moveHead (1 / 20) snakeEdge world0)))
   \<and> dead (fst (Snake_update_this (1 / 20) snakeEdge world0))
   \<and> Snake.pos (fst (Snake_update_this (1 / 20) snakeEdge world0))
       = \<lparr>Vector.x = 200043 / 2, y = 0\<rparr>
   \<and> path (fst (Snake_update_this (1 / 20) snakeEdge world0)) = path snakeEdge
   \<and> width (fst (Snake_update_this (1 / 20) snakeEdge world0)) = 65
   \<and> length (particles (snd (Snake_update_this (1 / 20) snakeEdge world0))) = 50"
proof -
  have h: "\<not> dead snakeEdge
      \<and> mapSize CONFIG < Vector_mag (Snake.pos (fst (moveHead (1 / 20) snakeEdge world0)))"
    by (simp add: moveHead_snakeEdge) (simp add: snakeEdge_def snake0_def CONFIG_def)
  have f: "width snakeEdge = 65" "particles world0 = []"
    by (simp_all add: snakeEdge_def snake0_def world0_def)
  note c = boundary_death [of snakeEdge "1 / 20" world0 0, THEN mp, OF h]
  show ?thesis
    using h c by (simp add: f moveHead_snakeEdge)
qed

text \<open>The scan leaves score, path, head position and the dead flag as they are.\<close>

lemma scanNearby_frame [simp]:
  "score (snd (scanNearby hp this cp nearby s)) = score s"
  "path (snd (scanNearby hp this cp nearby s)) = path s"
  "Snake.pos (snd (scanNearby hp this cp nearby s)) = Snake.pos s"
  "dead (snd (scanNearby hp this cp nearby s)) = dead s"
  by (induction nearby; simp add: Let_def split: option.splits)+

lemma dangerChecks_frame [simp]:
  "score (snd (dangerChecks this s wd)) = score s"
  "path (snd (dangerChecks this s wd)) = path s"
  "Snake.pos (snd (dangerChecks this s wd)) = Snake.pos s"
  "dead (snd (dangerChecks this s wd)) = dead s"
  by (simp_all add: dangerChecks_def Let_def)

lemma wander_frame [simp]:
  "score (fst (wander dt s wd)) = score s"
  "path (fst (wander dt s wd)) = path s"
  "Snake.pos (fst (wander dt s wd)) = Snake.pos s"
  "dead (fst (wander dt s wd)) = dead s"
  by (simp_all add: wander_def Let_def case_prod_beta)

lemma Bot_scan_frame [simp]:
  "score (fst (Bot_scan dt this s wd)) = score s"
  "path (fst (Bot_scan dt this s wd)) = path s"
  "Snake.pos (fst (Bot_scan dt this s wd)) = Snake.pos s"
  "dead (fst (Bot_scan dt this s wd)) = dead s"
  by (simp_all add: Bot_scan_def Let_def case_prod_beta)

lemma update_this_score_nonneg:
  assumes "0 \<le> score s" "0 \<le> dt" "dt \<le> 0.05"
  shows "0 \<le> score (fst (Snake_update_this dt s wd))"
  using assms by (simp add: update_this_score)

lemma Bot_update_heap_this:
  assumes "heap wd this = Some s"
  shows "\<exists>s1 w1. score s1 = score s \<and> path s1 = path s \<and> Snake.pos s1 = Snake.pos s
     \<and> dead s1 = dead s
     \<and> heap (Bot_update dt this wd) this
         = Some (if dead s then s else fst (Snake_update_this dt s1 w1))"
proof (cases "dead s")
  case True
  then show ?thesis using assms by (auto simp: Bot_update_def)
next
  case False
  let ?r = "if shouldScan s wd then Bot_scan dt this s wd else (s, wd)"
  let ?w = "(snd ?r)\<lparr>heap := (heap (snd ?r))(this \<mapsto> fst ?r)\<rparr>"
  have "Bot_update dt this wd = Snake_update dt this ?w"
    using assms False by (simp add: Bot_update_def case_prod_beta Let_def)
  moreover have "heap ?w this = Some (fst ?r)" by simp
  ultimately have "heap (Bot_update dt this wd) this
      = Some (fst (Snake_update_this dt (fst ?r) ?w))"
    by (simp only: Snake_update_heap_this)
  moreover have "score (fst ?r) = score s" "path (fst ?r) = path s"
    "Snake.pos (fst ?r) = Snake.pos s" "dead (fst ?r) = dead s"
    by simp_all
  ultimately have "score (fst ?r) = score s \<and> path (fst ?r) = path s
     \<and> Snake.pos (fst ?r) = Snake.pos s \<and> dead (fst ?r) = dead s
     \<and> heap (Bot_update dt this wd) this
         = Some (if dead s then s else fst (Snake_update_this dt (fst ?r) ?w))"
    using False by simp
  then show ?thesis by blast
qed

text \<open>
  C3.  For a score that is not negative and \<open>0 \<le> dt \<le> 0.05\<close>, the score after
  the update is not negative.  The update changes the score only by the boost
  cost \<open>dt * 25\<close>, and only for a live snake that requests the boost with a score
  above 50; at or below 50 the speed stage leaves snake and world as they are and
  selects the speed of a snake that does not boost (the base speed, with the
  factor 0.9 of wide bots).  The same bound holds for the object in the store
  after \<^verbatim>\<open>Snake.update\<close> and after \<^verbatim>\<open>Bot.update\<close>.
\<close>

theorem score_never_negative:
  "0 \<le> score s \<and> 0 \<le> dt \<and> dt \<le> 0.05
   \<longrightarrow> 0 \<le> score (fst (Snake_update_this dt s wd))
     \<and> score (fst (Snake_update_this dt s wd))
         = (if \<not> dead s \<and> boosting s wd \<and> 50 < score s then score s - dt * 25 else score s)
     \<and> (score s \<le> 50
          \<longrightarrow> speedAndBoost dt s wd
              = (if isBot s \<and> width s > 100 then baseSpeed CONFIG * 0.9 else baseSpeed CONFIG,
                 s, wd))
     \<and> (heap wd this = Some s
          \<longrightarrow> (\<exists>s'. heap (Snake_update dt this wd) this = Some s' \<and> 0 \<le> score s')
            \<and> (\<exists>s'. heap (Bot_update dt this wd) this = Some s' \<and> 0 \<le> score s'))"
proof (intro impI conjI)
  assume a: "0 \<le> score s \<and> 0 \<le> dt \<and> dt \<le> 0.05"
  show "0 \<le> score (fst (Snake_update_this dt s wd))"
    using a by (simp add: update_this_score_nonneg)
  show "score (fst (Snake_update_this dt s wd))
      = (if \<not> dead s \<and> boosting s wd \<and> 50 < score s then score s - dt * 25 else score s)"
    by (rule update_this_score)
  show "speedAndBoost dt s wd
      = (if isBot s \<and> width s > 100 then baseSpeed CONFIG * 0.9 else baseSpeed CONFIG, s, wd)"
    if "score s \<le> 50"
    using that by (rule speedAndBoost_refused)
  show "\<exists>s'. heap (Snake_update dt this wd) this = Some s' \<and> 0 \<le> score s'"
    if "heap wd this = Some s"
    using a that by (simp add: Snake_update_heap_this update_this_score_nonneg)
  show "\<exists>s'. heap (Bot_update dt this wd) this = Some s' \<and> 0 \<le> score s'"
    if h: "heap wd this = Some s"
  proof -
    obtain s1 w1 where s1: "score s1 = score s"
      and e: "heap (Bot_update dt this wd) this
          = Some (if dead s then s else fst (Snake_update_this dt s1 w1))"
      using Bot_update_heap_this [OF h] by blast
    have "0 \<le> score (fst (Snake_update_this dt s1 w1))"
      using a s1 by (simp add: update_this_score_nonneg)
    then show ?thesis using a e by auto
  qed
qed

theorem score_never_negative_witness:
  "score (fst (Snake_update_this (1 / 20) (snake0\<lparr>score := 40\<rparr>) (world0\<lparr>mouseDown := True\<rparr>))) = 40
   \<and> speedAndBoost (1 / 20) (snake0\<lparr>score := 40\<rparr>) (world0\<lparr>mouseDown := True\<rparr>)
       = (450, snake0\<lparr>score := 40\<rparr>, world0\<lparr>mouseDown := True\<rparr>)
   \<and> score (fst (Snake_update_this (1 / 20) snake0 (world0\<lparr>mouseDown := True\<rparr>))) = 98.75
   \<and> (\<exists>s'. heap (Snake_update (1 / 20) 0 (world0\<lparr>mouseDown := True\<rparr>)) 0 = Some s' \<and> 0 \<le> score s')
   \<and> (\<exists>s'. heap (Bot_update (1 / 20) 0 (world0\<lparr>mouseDown := True\<rparr>)) 0 = Some s' \<and> 0 \<le> score s')"
  using score_never_negative [of "snake0\<lparr>score := 40\<rparr>" "1 / 20" "world0\<lparr>mouseDown := True\<rparr>" 0]
    score_never_negative [of snake0 "1 / 20" "world0\<lparr>mouseDown := True\<rparr>" 0]
  by (simp add: boosting_def) (simp add: snake0_def world0_def CONFIG_def)

section \<open>The path bound\<close>

lemma prefill_length:
  "0 < spacing \<Longrightarrow> length (prefill i startLen spacing p dir) \<le> nat \<lceil>(startLen - i) / spacing\<rceil>"
proof (induction i startLen spacing p dir rule: prefill.induct)
  case (1 i startLen spacing p dir)
  show ?case
  proof (cases "i < startLen")
    case True
    have e: "(startLen - (i + spacing)) / spacing = (startLen - i) / spacing - 1"
      using 1(2) by (simp add: field_simps)
    have "0 < (startLen - i) / spacing" using True 1(2) by simp
    then have pos: "0 < \<lceil>(startLen - i) / spacing\<rceil>" by linarith
    have "length (prefill (i + spacing) startLen spacing p dir)
        \<le> nat \<lceil>(startLen - (i + spacing)) / spacing\<rceil>"
      using 1 True by simp
    also have "\<dots> = nat (\<lceil>(startLen - i) / spacing\<rceil> - 1)"
      unfolding e by simp
    finally have "Suc (length (prefill (i + spacing) startLen spacing p dir))
        \<le> nat \<lceil>(startLen - i) / spacing\<rceil>"
      using pos by linarith
    then show ?thesis
      using True 1(2) by (subst prefill.simps) simp
  next
    case False
    then show ?thesis by (subst prefill.simps) simp
  qed
qed

lemma calculateWidth_ge_40: "40 \<le> Snake_calculateWidth s"
proof -
  have "log 10 10 \<le> log 10 (max 10 (score s))"
    by (subst log_le_cancel_iff) simp_all
  then have "1 \<le> log 10 (max 10 (score s))" by simp
  then show ?thesis unfolding Snake_calculateWidth_def by simp
qed

lemma calculateTargetLength_le: "Snake_calculateTargetLength s \<le> 8000"
  by (simp add: Snake_calculateTargetLength_def)

lemma Snake_new_path:
  "path (fst (Snake_new nm isB sc wd))
     = (let s = \<lparr>name = nm, isBot = isB, id_snake = 0, pos = \<lparr>Vector.x = 0, y = 0\<rparr>,
                  angle = 0, targetAngle = 0, score = sc, width = 0,
                  targetWidth = 0, path = [], color = 0, color2 = 0, pattern = 0,
                  dead = False, multiplier = 1, multiplierTimer = 0,
                  changeDirTimer = 0, wantBoost = False, boostCooldown = 0\<rparr>;
            a = rnd wd (Suc (Suc (Suc (rndi wd)))) * pi * 2
        in prefill 0 (Snake_calculateTargetLength s) (Snake_calculateWidth s / 2)
             \<lparr>Vector.x = (rnd wd (Suc (rndi wd)) - 0.5) * mapSize CONFIG * 1.5,
              y = (rnd wd (Suc (Suc (rndi wd))) - 0.5) * mapSize CONFIG * 1.5\<rparr>
             (Vector_mult \<lparr>Vector.x = cos a, y = sin a\<rparr> (- 1)))"
  by (simp add: Snake_new_def Let_def case_prod_beta Math_random_def
      Snake_calculateTargetLength_def Snake_calculateWidth_def)

lemma Snake_new_path_length: "length (path (fst (Snake_new nm isB sc wd))) \<le> 400"
proof -
  define s where "s = \<lparr>name = nm, isBot = isB, id_snake = 0, pos = \<lparr>Vector.x = 0, y = 0\<rparr>,
                  angle = 0, targetAngle = 0, score = sc, width = 0,
                  targetWidth = 0, path = [], color = 0, color2 = 0, pattern = 0,
                  dead = False, multiplier = 1, multiplierTimer = 0,
                  changeDirTimer = 0, wantBoost = False, boostCooldown = (0::real)\<rparr>"
  let ?sp = "Snake_calculateWidth s / 2"
  let ?len = "Snake_calculateTargetLength s"
  have sp: "20 \<le> ?sp" using calculateWidth_ge_40 [of s] by simp
  have "?len \<le> 400 * ?sp" using calculateTargetLength_le [of s] sp by linarith
  then have "(?len - 0) / ?sp \<le> 400" using sp by (simp add: pos_divide_le_eq)
  then have c: "nat \<lceil>(?len - 0) / ?sp\<rceil> \<le> 400"
    by (simp add: ceiling_le_iff)
  have "length (prefill 0 ?len ?sp p dir) \<le> 400" for p dir
    using prefill_length [of ?sp 0 ?len p dir] sp c by linarith
  then show ?thesis
    unfolding Snake_new_path Let_def s_def [symmetric] by simp
qed

lemma maxPathPoints_400 [simp]: "maxPathPoints CONFIG = 400"
  by (simp add: CONFIG_def)

lemma Vector_copy_id [simp]: "Vector_copy p = p"
  by (simp add: Vector_copy_def)

lemma pathManagement_path:
  "path (pathManagement sp s)
     = (if pushes sp s then take (maxPathPoints CONFIG) (Snake.pos s # path s) else path s)"
  by (simp add: pathManagement_def Let_def)

lemma lengthManagement_path:
  "path (lengthManagement sp s) = path s \<or> path (lengthManagement sp s) = butlast (path s)"
  by (simp add: lengthManagement_def Let_def)

lemma pathManagement_length:
  "length (path s) \<le> 400 \<Longrightarrow> length (path (pathManagement sp s)) \<le> 400"
  by (simp add: pathManagement_path)

lemma lengthManagement_length:
  "length (path (lengthManagement sp s)) \<le> length (path s)"
  using lengthManagement_path [of sp s] by auto

lemma update_this_path_length:
  assumes "length (path s) \<le> 400"
  shows "length (path (fst (Snake_update_this dt s wd))) \<le> 400"
proof (cases "dead s")
  case True
  then show ?thesis using assms by (simp add: Snake_update_this_def)
next
  case False
  show ?thesis
  proof (cases "Vector_mag (Snake.pos (fst (moveHead dt s wd))) > mapSize CONFIG")
    case True
    show ?thesis using assms by (simp add: update_this_dead_exit [OF False True])
  next
    case F2: False
    let ?s4 = "fst (moveHead dt s wd)"
    let ?sp = "Snake_getPathSpacing ?s4"
    have "length (path (pathManagement ?sp ?s4)) \<le> 400"
      using assms by (intro pathManagement_length) simp
    then have "length (path (lengthManagement ?sp (pathManagement ?sp ?s4))) \<le> 400"
      using lengthManagement_length [of ?sp "pathManagement ?sp ?s4"] by linarith
    then show ?thesis by (simp add: update_this_live_exit [OF False F2])
  qed
qed

text \<open>The path after an update is an initial segment of the old path, or of the
  old path with the new head in front: points leave at the old end only.\<close>

lemma update_this_path_prefix:
  "\<exists>n. path (fst (Snake_update_this dt s wd)) = take n (path s)
     \<or> path (fst (Snake_update_this dt s wd))
         = take n (Snake.pos (fst (Snake_update_this dt s wd)) # path s)"
proof (cases "dead s")
  case True
  then have "path (fst (Snake_update_this dt s wd)) = take (length (path s)) (path s)"
    by (simp add: Snake_update_this_def)
  then show ?thesis by blast
next
  case False
  show ?thesis
  proof (cases "Vector_mag (Snake.pos (fst (moveHead dt s wd))) > mapSize CONFIG")
    case True
    have "path (fst (Snake_update_this dt s wd)) = take (length (path s)) (path s)"
      by (simp add: update_this_dead_exit [OF False True])
    then show ?thesis by blast
  next
    case F2: False
    let ?s4 = "fst (moveHead dt s wd)"
    let ?sp = "Snake_getPathSpacing ?s4"
    let ?s5 = "pathManagement ?sp ?s4"
    let ?s' = "fst (Snake_update_this dt s wd)"
    have p: "Snake.pos ?s' = Snake.pos ?s4" and q: "path ?s' = path (lengthManagement ?sp ?s5)"
      by (simp_all add: update_this_live_exit [OF False F2])
    have a: "\<exists>n. path ?s5 = take n (path s) \<or> path ?s5 = take n (Snake.pos ?s4 # path s)"
    proof (cases "pushes ?sp ?s4")
      case True
      then have "path ?s5 = take 400 (Snake.pos ?s4 # path s)"
        by (simp add: pathManagement_path)
      then show ?thesis by blast
    next
      case False
      then have "path ?s5 = take (length (path s)) (path s)"
        by (simp add: pathManagement_path)
      then show ?thesis by blast
    qed
    have b: "\<exists>m. path (lengthManagement ?sp ?s5) = take m (path ?s5)"
    proof -
      have "path (lengthManagement ?sp ?s5) = take (length (path ?s5)) (path ?s5)
          \<or> path (lengthManagement ?sp ?s5) = take (length (path ?s5) - 1) (path ?s5)"
        using lengthManagement_path [of ?sp ?s5] by (auto simp: butlast_conv_take)
      then show ?thesis by blast
    qed
    from a b obtain n m where
      "path ?s5 = take n (path s) \<or> path ?s5 = take n (Snake.pos ?s4 # path s)"
      "path (lengthManagement ?sp ?s5) = take m (path ?s5)"
      by blast
    then have "path ?s' = take (min m n) (path s)
        \<or> path ?s' = take (min m n) (Snake.pos ?s' # path s)"
      unfolding p q by (auto simp: take_take)
    then show ?thesis by blast
  qed
qed

text \<open>When the update pushes onto a path that is not empty, the pushed head stays first.\<close>

lemma update_this_keeps_newest:
  assumes d: "\<not> dead s"
    and b: "\<not> Vector_mag (Snake.pos (fst (moveHead dt s wd))) > mapSize CONFIG"
    and ne: "path s \<noteq> []"
    and pu: "pushes (Snake_getPathSpacing (fst (moveHead dt s wd))) (fst (moveHead dt s wd))"
  shows "path (fst (Snake_update_this dt s wd)) \<noteq> []
     \<and> hd (path (fst (Snake_update_this dt s wd))) = Snake.pos (fst (Snake_update_this dt s wd))"
proof -
  let ?s4 = "fst (moveHead dt s wd)"
  let ?sp = "Snake_getPathSpacing ?s4"
  let ?s5 = "pathManagement ?sp ?s4"
  let ?s' = "fst (Snake_update_this dt s wd)"
  have p: "Snake.pos ?s' = Snake.pos ?s4" and q: "path ?s' = path (lengthManagement ?sp ?s5)"
    by (simp_all add: update_this_live_exit [OF d b])
  obtain a rest where r: "path s = a # rest" using ne by (cases "path s") auto
  have e: "path ?s5 = Snake.pos ?s4 # a # take 398 rest"
    using pu by (simp add: pathManagement_path r numeral_eq_Suc)
  have "path (lengthManagement ?sp ?s5) = path ?s5
      \<or> path (lengthManagement ?sp ?s5) = butlast (path ?s5)"
    by (rule lengthManagement_path)
  then have "path (lengthManagement ?sp ?s5) \<noteq> []
      \<and> hd (path (lengthManagement ?sp ?s5)) = Snake.pos ?s4"
    unfolding e by auto
  then show ?thesis unfolding p q .
qed

text \<open>
  C4.  The path never has more than \<open>maxPathPoints = 400\<close> points.  The pre-fill
  of the constructor produces at most 400 points for every starting score from
  100 on.  An update of a snake whose path is within the cap returns a path within
  the cap, for \<^verbatim>\<open>Snake.update\<close> and \<^verbatim>\<open>Bot.update\<close> on the store as well.  When
  path management pushes, the path becomes the first 400 points of the new head
  followed by the old path, so the new head is kept at index 0 and points are cut
  from the old end.  The path after an update is always an initial segment of the
  old path, or of the old path with the new head in front; and when the update
  pushes onto a path that is not empty, the new head is still the first point at
  the end of the update.
\<close>

theorem path_bound:
  "(100 \<le> sc \<longrightarrow> length (path (fst (Snake_new nm isB sc wd0))) \<le> maxPathPoints CONFIG)
   \<and> (length (path s) \<le> maxPathPoints CONFIG
        \<longrightarrow> length (path (fst (Snake_update_this dt s wd))) \<le> maxPathPoints CONFIG
          \<and> (heap wd this = Some s
               \<longrightarrow> (\<exists>s'. heap (Snake_update dt this wd) this = Some s'
                          \<and> length (path s') \<le> maxPathPoints CONFIG)
                 \<and> (\<exists>s'. heap (Bot_update dt this wd) this = Some s'
                          \<and> length (path s') \<le> maxPathPoints CONFIG)))
   \<and> (pushes sp s
        \<longrightarrow> path (pathManagement sp s) = take (maxPathPoints CONFIG) (Snake.pos s # path s)
          \<and> path (pathManagement sp s) ! 0 = Snake.pos s)
   \<and> (\<exists>n. path (fst (Snake_update_this dt s wd)) = take n (path s)
          \<or> path (fst (Snake_update_this dt s wd))
              = take n (Snake.pos (fst (Snake_update_this dt s wd)) # path s))
   \<and> (\<not> dead s \<and> \<not> Vector_mag (Snake.pos (fst (moveHead dt s wd))) > mapSize CONFIG
        \<and> path s \<noteq> []
        \<and> pushes (Snake_getPathSpacing (fst (moveHead dt s wd))) (fst (moveHead dt s wd))
        \<longrightarrow> path (fst (Snake_update_this dt s wd)) \<noteq> []
          \<and> hd (path (fst (Snake_update_this dt s wd)))
              = Snake.pos (fst (Snake_update_this dt s wd)))
   \<and> maxPathPoints CONFIG = 400"
proof (intro conjI impI)
  show "length (path (fst (Snake_new nm isB sc wd0))) \<le> maxPathPoints CONFIG"
    using Snake_new_path_length [of nm isB sc wd0] by simp
  show "\<exists>n. path (fst (Snake_update_this dt s wd)) = take n (path s)
          \<or> path (fst (Snake_update_this dt s wd))
              = take n (Snake.pos (fst (Snake_update_this dt s wd)) # path s)"
    by (rule update_this_path_prefix)
  show "maxPathPoints CONFIG = 400" by simp
next
  assume "pushes sp s"
  then show "path (pathManagement sp s) = take (maxPathPoints CONFIG) (Snake.pos s # path s)"
    and "path (pathManagement sp s) ! 0 = Snake.pos s"
    by (simp_all add: pathManagement_path)
next
  assume a: "length (path s) \<le> maxPathPoints CONFIG"
  then have a': "length (path s) \<le> 400" by simp
  show "length (path (fst (Snake_update_this dt s wd))) \<le> maxPathPoints CONFIG"
    using update_this_path_length [OF a'] by simp
  assume h: "heap wd this = Some s"
  show "\<exists>s'. heap (Snake_update dt this wd) this = Some s'
      \<and> length (path s') \<le> maxPathPoints CONFIG"
    using update_this_path_length [OF a'] by (simp add: Snake_update_heap_this [OF h])
  obtain s1 w1 where s1: "path s1 = path s"
    and e: "heap (Bot_update dt this wd) this
        = Some (if dead s then s else fst (Snake_update_this dt s1 w1))"
    using Bot_update_heap_this [OF h] by blast
  have "length (path (fst (Snake_update_this dt s1 w1))) \<le> 400"
    using a' s1 by (intro update_this_path_length) simp
  then show "\<exists>s'. heap (Bot_update dt this wd) this = Some s'
      \<and> length (path s') \<le> maxPathPoints CONFIG"
    using a' e by auto
next
  assume "\<not> dead s \<and> \<not> Vector_mag (Snake.pos (fst (moveHead dt s wd))) > mapSize CONFIG
        \<and> path s \<noteq> []
        \<and> pushes (Snake_getPathSpacing (fst (moveHead dt s wd))) (fst (moveHead dt s wd))"
  then have k: "path (fst (Snake_update_this dt s wd)) \<noteq> []
     \<and> hd (path (fst (Snake_update_this dt s wd))) = Snake.pos (fst (Snake_update_this dt s wd))"
    by (intro update_this_keeps_newest) simp_all
  from k show "path (fst (Snake_update_this dt s wd)) \<noteq> []" by simp
  from k show "hd (path (fst (Snake_update_this dt s wd)))
      = Snake.pos (fst (Snake_update_this dt s wd))" by simp
qed

lemma moveHead_snakeFar:
  "Snake.pos (fst (moveHead (1 / 20) snakeFar (world0\<lparr>heap := [0 \<mapsto> snakeFar]\<rparr>)))
     = \<lparr>Vector.x = 245 / 2, y = 0\<rparr>"
  by (simp add: moveHead_pos turningPhysics_def multiplierDecay_def speedAndBoost_def
      boosting_def snakeFar_def snake0_def world0_def CONFIG_def Vector_add_def Vector_mult_def)

theorem path_bound_witness:
  "length (path (fst (Snake_new ''Player'' False 100 world0))) \<le> 400
   \<and> length (path (fst (Snake_update_this (1 / 20) snakeFar
         (world0\<lparr>heap := [0 \<mapsto> snakeFar]\<rparr>)))) \<le> 400
   \<and> (\<exists>s'. heap (Bot_update (1 / 20) 0 (world0\<lparr>heap := [0 \<mapsto> snakeFar]\<rparr>)) 0 = Some s'
          \<and> length (path s') \<le> 400)
   \<and> path (pathManagement 65 snakeFar) = [\<lparr>Vector.x = 100, y = 0\<rparr>, \<lparr>Vector.x = 0, y = 0\<rparr>]
   \<and> hd (path (fst (Snake_update_this (1 / 20) snakeFar (world0\<lparr>heap := [0 \<mapsto> snakeFar]\<rparr>))))
       = \<lparr>Vector.x = 245 / 2, y = 0\<rparr>"
proof -
  let ?w = "world0\<lparr>heap := [0 \<mapsto> snakeFar]\<rparr>"
  have f: "path snakeFar = [\<lparr>Vector.x = 0, y = 0\<rparr>]" "\<not> dead snakeFar"
    "Snake.pos snakeFar = \<lparr>Vector.x = 100, y = 0\<rparr>" "heap ?w 0 = Some snakeFar"
    "width snakeFar = 65"
    by (simp_all add: snakeFar_def snake0_def)
  have p1: "pushes 65 snakeFar" by (simp add: pushes_def f)
  have p2: "pushes (Snake_getPathSpacing (fst (moveHead (1 / 20) snakeFar ?w)))
      (fst (moveHead (1 / 20) snakeFar ?w))"
    by (simp add: pushes_def Snake_getPathSpacing_def f moveHead_snakeFar)
  have b: "\<not> Vector_mag (Snake.pos (fst (moveHead (1 / 20) snakeFar ?w))) > mapSize CONFIG"
    by (simp add: moveHead_snakeFar CONFIG_def)
  have u: "Snake.pos (fst (Snake_update_this (1 / 20) snakeFar ?w)) = \<lparr>Vector.x = 245 / 2, y = 0\<rparr>"
    by (simp add: update_this_live_exit [OF f(2) b] moveHead_snakeFar)
  show ?thesis
    using path_bound [of 100 "''Player''" False world0 snakeFar "1 / 20" ?w 0 65] p1 p2 b u
    by (simp add: f)
qed

section \<open>Spawning outside the map\<close>

lemma speedAndBoost_speed_bounds:
  "0 \<le> fst (speedAndBoost dt s wd) \<and> fst (speedAndBoost dt s wd) \<le> 900"
  by (simp add: speedAndBoost_def Let_def case_prod_beta CONFIG_def)

lemma Vector_mag_heading: "Vector_mag (Vector_mult \<lparr>Vector.x = cos a, y = sin a\<rparr> k) = \<bar>k\<bar>"
proof -
  have "cos a * k * (cos a * k) + sin a * k * (sin a * k)
      = (cos a * cos a + sin a * sin a) * (k * k)"
    by (simp only: distrib_right distrib_left mult_ac)
  also have "\<dots> = k * k" by (simp only: sin_cos_squared_add3 mult_1)
  finally show ?thesis by (simp add: Vector_mag_def Vector_mult_def)
qed

lemma Vector_mag_triangle: "Vector_mag a \<le> Vector_mag (Vector_add a b) + Vector_mag b"
proof -
  have "sqrt ((( Vector.x a + Vector.x b) + (- Vector.x b))\<^sup>2
            + ((Vector.y a + Vector.y b) + (- Vector.y b))\<^sup>2)
      \<le> sqrt ((Vector.x a + Vector.x b)\<^sup>2 + (Vector.y a + Vector.y b)\<^sup>2)
        + sqrt ((- Vector.x b)\<^sup>2 + (- Vector.y b)\<^sup>2)"
    by (rule real_sqrt_sum_squares_triangle_ineq)
  then show ?thesis
    by (simp add: Vector_mag_def Vector_add_def power2_eq_square)
qed

text \<open>A tick moves the head by at most \<open>900 * 0.05 = 45\<close> units.\<close>

lemma moveHead_distance:
  assumes "0 \<le> dt" "dt \<le> 0.05"
  shows "Vector_mag (Snake.pos s) - 45 \<le> Vector_mag (Snake.pos (fst (moveHead dt s wd)))"
proof -
  let ?s2 = "turningPhysics dt (multiplierDecay dt s)"
  let ?k = "fst (speedAndBoost dt ?s2 wd) * dt"
  let ?v = "Vector_mult \<lparr>Vector.x = cos (angle ?s2), y = sin (angle ?s2)\<rparr> ?k"
  have sp: "0 \<le> fst (speedAndBoost dt ?s2 wd)" "fst (speedAndBoost dt ?s2 wd) \<le> 900"
    using speedAndBoost_speed_bounds [of dt ?s2 wd] by simp_all
  have "?k \<le> 900 * 0.05"
    using sp assms by (intro mult_mono) simp_all
  moreover have "0 \<le> ?k" using sp assms by simp
  ultimately have "Vector_mag ?v \<le> 45" by (simp add: Vector_mag_heading)
  moreover have "Vector_mag (Snake.pos s) \<le> Vector_mag (Vector_add (Snake.pos s) ?v) + Vector_mag ?v"
    by (rule Vector_mag_triangle)
  ultimately show ?thesis by (simp add: moveHead_pos)
qed

lemma outside_dies:
  assumes "\<not> dead s" "mapSize CONFIG + 45 < Vector_mag (Snake.pos s)" "0 \<le> dt" "dt \<le> 0.05"
  shows "dead (fst (Snake_update_this dt s wd))"
proof -
  have "mapSize CONFIG < Vector_mag (Snake.pos (fst (moveHead dt s wd)))"
    using moveHead_distance [OF assms(3,4), of s wd] assms(2) by linarith
  then show ?thesis by (simp add: update_this_dead_exit [OF assms(1)])
qed

lemma Snake_new_pos:
  "Snake.pos (fst (Snake_new nm isB sc wd))
     = \<lparr>Vector.x = (rnd wd (Suc (rndi wd)) - 0.5) * mapSize CONFIG * 1.5,
        y = (rnd wd (Suc (Suc (rndi wd))) - 0.5) * mapSize CONFIG * 1.5\<rparr>"
  by (simp add: Snake_new_def Let_def case_prod_beta Math_random_def)

lemma Snake_new_dead [simp]: "\<not> dead (fst (Snake_new nm isB sc wd))"
  by (simp add: Snake_new_def Let_def case_prod_beta)

lemma corner_outside:
  "mapSize CONFIG + 45 < Vector_mag \<lparr>Vector.x = - 0.75 * mapSize CONFIG, y = - 0.75 * mapSize CONFIG\<rparr>"
  by (simp add: Vector_mag_def CONFIG_def real_less_rsqrt)

text \<open>
  C10.  The constructor places the head at
  \<open>((r1 - 0.5) * mapSize * 1.5, (r2 - 0.5) * mapSize * 1.5)\<close> for its second and
  third draw, hence in the square of half-side \<open>0.75 * mapSize\<close> for draws in
  \<open>[0, 1)\<close>.  For the attainable draws \<open>r1 = r2 = 0\<close> the head is at the corner
  \<open>(- 0.75 * mapSize, - 0.75 * mapSize)\<close>, farther than \<open>mapSize\<close> from the origin;
  the new snake is alive, and its first update with \<open>0 \<le> dt \<le> 0.05\<close> marks it
  dead in every world, whatever the input, for \<^verbatim>\<open>Snake.update\<close> and
  \<^verbatim>\<open>Bot.update\<close>.
\<close>

theorem spawn_outside_map:
  "(0 \<le> rnd wd (Suc (rndi wd)) \<and> rnd wd (Suc (rndi wd)) < 1
      \<and> 0 \<le> rnd wd (Suc (Suc (rndi wd))) \<and> rnd wd (Suc (Suc (rndi wd))) < 1
     \<longrightarrow> \<bar>Vector.x (Snake.pos (fst (Snake_new nm isB sc wd)))\<bar> \<le> 0.75 * mapSize CONFIG
       \<and> \<bar>Vector.y (Snake.pos (fst (Snake_new nm isB sc wd)))\<bar> \<le> 0.75 * mapSize CONFIG)
   \<and> (rnd wd (Suc (rndi wd)) = 0 \<and> rnd wd (Suc (Suc (rndi wd))) = 0 \<and> 0 \<le> dt \<and> dt \<le> 0.05
     \<longrightarrow> Snake.pos (fst (Snake_new nm isB sc wd))
           = \<lparr>Vector.x = - 0.75 * mapSize CONFIG, y = - 0.75 * mapSize CONFIG\<rparr>
       \<and> mapSize CONFIG < Vector_mag (Snake.pos (fst (Snake_new nm isB sc wd)))
       \<and> \<not> dead (fst (Snake_new nm isB sc wd))
       \<and> dead (fst (Snake_update_this dt (fst (Snake_new nm isB sc wd)) wd'))
       \<and> (heap wd' this = Some (fst (Snake_new nm isB sc wd))
            \<longrightarrow> (\<exists>s'. heap (Snake_update dt this wd') this = Some s' \<and> dead s')
              \<and> (\<exists>s'. heap (Bot_update dt this wd') this = Some s' \<and> dead s')))"
proof (intro conjI impI)
  assume a: "0 \<le> rnd wd (Suc (rndi wd)) \<and> rnd wd (Suc (rndi wd)) < 1
      \<and> 0 \<le> rnd wd (Suc (Suc (rndi wd))) \<and> rnd wd (Suc (Suc (rndi wd))) < 1"
  show "\<bar>Vector.x (Snake.pos (fst (Snake_new nm isB sc wd)))\<bar> \<le> 0.75 * mapSize CONFIG"
    using a by (simp add: Snake_new_pos CONFIG_def abs_le_iff)
  show "\<bar>Vector.y (Snake.pos (fst (Snake_new nm isB sc wd)))\<bar> \<le> 0.75 * mapSize CONFIG"
    using a by (simp add: Snake_new_pos CONFIG_def abs_le_iff)
next
  let ?s = "fst (Snake_new nm isB sc wd)"
  assume a: "rnd wd (Suc (rndi wd)) = 0 \<and> rnd wd (Suc (Suc (rndi wd))) = 0
      \<and> 0 \<le> dt \<and> dt \<le> 0.05"
  show p: "Snake.pos ?s = \<lparr>Vector.x = - 0.75 * mapSize CONFIG, y = - 0.75 * mapSize CONFIG\<rparr>"
    using a by (simp add: Snake_new_pos)
  have far: "mapSize CONFIG + 45 < Vector_mag (Snake.pos ?s)"
    unfolding p by (rule corner_outside)
  then show "mapSize CONFIG < Vector_mag (Snake.pos ?s)" by simp
  show "\<not> dead ?s" by simp
  show "dead (fst (Snake_update_this dt ?s wd'))"
    using a far by (intro outside_dies) simp_all
  assume h: "heap wd' this = Some ?s"
  show "\<exists>s'. heap (Snake_update dt this wd') this = Some s' \<and> dead s'"
    using a far by (simp add: Snake_update_heap_this [OF h] outside_dies)
  obtain s1 w1 where s1: "Snake.pos s1 = Snake.pos ?s" "dead s1 = dead ?s"
    and e: "heap (Bot_update dt this wd') this
        = Some (if dead ?s then ?s else fst (Snake_update_this dt s1 w1))"
    using Bot_update_heap_this [OF h] by blast
  have "dead (fst (Snake_update_this dt s1 w1))"
    using a far s1 by (intro outside_dies) simp_all
  then show "\<exists>s'. heap (Bot_update dt this wd') this = Some s' \<and> dead s'"
    using e by simp
qed

theorem spawn_outside_map_witness:
  "Snake.pos (fst (Snake_new ''Player'' False 100 (world0\<lparr>rnd := \<lambda>n. 0\<rparr>)))
     = \<lparr>Vector.x = - 75000, y = - 75000\<rparr>
   \<and> dead (fst (Snake_update_this (1 / 20)
        (fst (Snake_new ''Player'' False 100 (world0\<lparr>rnd := \<lambda>n. 0\<rparr>))) world0))
   \<and> (\<exists>s'. heap (Snake_update (1 / 20) 0
          (world0\<lparr>heap := [0 \<mapsto> fst (Snake_new ''Player'' False 100 (world0\<lparr>rnd := \<lambda>n. 0\<rparr>))]\<rparr>)) 0
          = Some s' \<and> dead s')"
proof -
  let ?s = "fst (Snake_new ''Player'' False 100 (world0\<lparr>rnd := \<lambda>n. 0\<rparr>))"
  have r: "rnd (world0\<lparr>rnd := \<lambda>n. 0\<rparr>) k = 0" for k by simp
  have h: "heap (world0\<lparr>heap := [0 \<mapsto> ?s]\<rparr>) 0 = Some ?s" by simp
  have m: "mapSize CONFIG = 100000" by (simp add: CONFIG_def)
  show ?thesis
    using spawn_outside_map [of "world0\<lparr>rnd := \<lambda>n. 0\<rparr>" "''Player''" False 100 "1 / 20" world0 0]
      spawn_outside_map [of "world0\<lparr>rnd := \<lambda>n. 0\<rparr>" "''Player''" False 100 "1 / 20"
        "world0\<lparr>heap := [0 \<mapsto> ?s]\<rparr>" 0] h
    by (simp add: r m del: Snake_new_dead)
qed

section \<open>Head against body\<close>

lemma bodyHit_iff:
  "0 < step \<Longrightarrow>
   bodyHit hp md bp step i
     \<longleftrightarrow> (\<exists>k. i + k * step < length bp \<and> Vector_dist hp (bp ! (i + k * step)) < md)"
proof (induction hp md bp step i rule: bodyHit.induct)
  case (1 hp md bp step i)
  show ?case
  proof (cases "i < length bp")
    case False
    then have "bodyHit hp md bp step i = False" by (subst bodyHit.simps) simp
    moreover have "\<not> (\<exists>k. i + k * step < length bp \<and> Vector_dist hp (bp ! (i + k * step)) < md)"
      using False by auto
    ultimately show ?thesis by simp
  next
    case True
    show ?thesis
    proof (cases "Vector_dist hp (bp ! i) < md")
      case c: True
      then have "bodyHit hp md bp step i" using True 1(2) by (subst bodyHit.simps) simp
      moreover have "i + 0 * step < length bp \<and> Vector_dist hp (bp ! (i + 0 * step)) < md"
        using True c by simp
      ultimately show ?thesis by blast
    next
      case c: False
      have "bodyHit hp md bp step i = bodyHit hp md bp step (i + step)"
        using True c 1(2) by (subst bodyHit.simps) simp
      also have "\<dots> \<longleftrightarrow> (\<exists>k. i + step + k * step < length bp
          \<and> Vector_dist hp (bp ! (i + step + k * step)) < md)"
        using 1 True c by simp
      also have "\<dots> \<longleftrightarrow> (\<exists>k. i + k * step < length bp
          \<and> Vector_dist hp (bp ! (i + k * step)) < md)"
      proof
        assume "\<exists>k. i + step + k * step < length bp
          \<and> Vector_dist hp (bp ! (i + step + k * step)) < md"
        then obtain k where "i + step + k * step < length bp"
          "Vector_dist hp (bp ! (i + step + k * step)) < md" by blast
        then have "i + Suc k * step < length bp \<and> Vector_dist hp (bp ! (i + Suc k * step)) < md"
          by (simp add: add.assoc)
        then show "\<exists>k. i + k * step < length bp \<and> Vector_dist hp (bp ! (i + k * step)) < md"
          by blast
      next
        assume "\<exists>k. i + k * step < length bp \<and> Vector_dist hp (bp ! (i + k * step)) < md"
        then obtain k where k: "i + k * step < length bp"
          "Vector_dist hp (bp ! (i + k * step)) < md" by blast
        have "k \<noteq> 0" using k c by (cases k) auto
        then obtain j where j: "k = Suc j" by (cases k) auto
        have "i + step + j * step < length bp \<and> Vector_dist hp (bp ! (i + step + j * step)) < md"
          using k unfolding j by (simp add: add.assoc)
        then show "\<exists>k. i + step + k * step < length bp
          \<and> Vector_dist hp (bp ! (i + step + k * step)) < md" by blast
      qed
      finally show ?thesis .
    qed
  qed
qed

text \<open>The head hits the body exactly when some sampled point of the body path is
  closer to the head than \<open>minDist\<close>.\<close>

lemma headHitsBody_iff:
  "headHitsBody a1 a2
     \<longleftrightarrow> (\<exists>k. k * nat (max 2 \<lfloor>width a2 / 5\<rfloor>) < length (path a2)
           \<and> Vector_dist (Snake.pos a1) (path a2 ! (k * nat (max 2 \<lfloor>width a2 / 5\<rfloor>)))
               < width a1 * 0.35 + width a2 / 2)"
proof -
  have "0 < nat (max 2 \<lfloor>width a2 / 5\<rfloor>)" by simp
  then show ?thesis
    unfolding headHitsBody_def Let_def minDist_def
    by (subst bodyHit_iff) simp_all
qed

lemma die_heap: "heap (die s1 a1 wd) = (heap wd)(s1 \<mapsto> a1\<lparr>dead := True\<rparr>)"
  by (simp add: die_def Let_def)

lemma scanBodies_hit:
  assumes "heap wd s2 = Some a2" "s1 \<noteq> s2" "\<not> dead a2" "headHitsBody a1 a2"
    and "s2 \<in> set nearby"
  shows "scanBodies s1 a1 nearby wd = die s1 a1 wd"
  using assms(5)
proof (induction nearby)
  case Nil
  then show ?case by simp
next
  case (Cons r rest)
  show ?case
  proof (cases "r = s2")
    case True
    then show ?thesis using assms(1-4) by simp
  next
    case False
    then have "s2 \<in> set rest" using Cons.prems by simp
    then have "scanBodies s1 a1 rest wd = die s1 a1 wd" by (rule Cons.IH)
    then show ?thesis by (auto split: option.splits)
  qed
qed

text \<open>
  When no neighbour is hit, the scan leaves the world as it is: a body is tested
  only if its owner is among the neighbours returned by the grid query.
\<close>

lemma scanBodies_miss:
  assumes "\<forall>r \<in> set nearby. r = s1
      \<or> (case heap wd r of None \<Rightarrow> True | Some a2 \<Rightarrow> dead a2 \<or> \<not> headHitsBody a1 a2)"
  shows "scanBodies s1 a1 nearby wd = wd"
  using assms by (induction nearby) (auto split: option.splits)

text \<open>
  C2, as the code has it.  In the snake-against-snake pass, let \<open>s1\<close> be a
  live head owner and \<open>s2\<close> another live snake among the neighbours that the
  grid query around the head of \<open>s1\<close> returns.  When some
  sampled point of the path of \<open>s2\<close> (indices \<open>0, step, 2 * step, \<dots>\<close> with
  \<open>step = max 2 (floor (width / 5))\<close>) is closer to the head of \<open>s1\<close> than
  \<open>0.35 * width s1 + width s2 / 2\<close>, the scan of the neighbours of \<open>s1\<close> ends
  with the death effects of \<open>s1\<close>: in the store only the object of \<open>s1\<close> changes,
  and only its dead flag; \<open>s2\<close> is as before.  The result does not depend on
  the neighbours that follow \<open>s2\<close>, and the pass continues with the next head
  owner.
\<close>

theorem collision_kills_head_owner_only:
  "heap wd s1 = Some a1 \<and> heap wd s2 = Some a2 \<and> s1 \<noteq> s2 \<and> \<not> dead a1 \<and> \<not> dead a2
     \<and> s2 \<in> set nearby
     \<and> (\<exists>k. k * nat (max 2 \<lfloor>width a2 / 5\<rfloor>) < length (path a2)
           \<and> Vector_dist (Snake.pos a1) (path a2 ! (k * nat (max 2 \<lfloor>width a2 / 5\<rfloor>)))
               < width a1 * 0.35 + width a2 / 2)
   \<longrightarrow> scanBodies s1 a1 nearby wd = die s1 a1 wd
     \<and> heap (scanBodies s1 a1 nearby wd) = (heap wd)(s1 \<mapsto> a1\<lparr>dead := True\<rparr>)
     \<and> heap (scanBodies s1 a1 nearby wd) s2 = Some a2
     \<and> (\<forall>rest. scanBodies s1 a1 (s2 # rest) wd = die s1 a1 wd)
     \<and> (nearby = SpatialHash_retrieve
            \<lparr>Rect.x = Vector.x (Snake.pos a1) - 100, y = Vector.y (Snake.pos a1) - 100,
             w = 200, h = 200\<rparr> (spatialHash wd)
          \<longrightarrow> (\<forall>more. snakeVsSnake (s1 # more) wd = snakeVsSnake more (die s1 a1 wd)))"
proof (intro impI)
  assume a: "heap wd s1 = Some a1 \<and> heap wd s2 = Some a2 \<and> s1 \<noteq> s2 \<and> \<not> dead a1 \<and> \<not> dead a2
     \<and> s2 \<in> set nearby
     \<and> (\<exists>k. k * nat (max 2 \<lfloor>width a2 / 5\<rfloor>) < length (path a2)
           \<and> Vector_dist (Snake.pos a1) (path a2 ! (k * nat (max 2 \<lfloor>width a2 / 5\<rfloor>)))
               < width a1 * 0.35 + width a2 / 2)"
  then have hit: "headHitsBody a1 a2" by (simp add: headHitsBody_iff)
  have e: "scanBodies s1 a1 nb wd = die s1 a1 wd" if "s2 \<in> set nb" for nb
    using a hit that by (intro scanBodies_hit [where ?s2.0 = s2 and ?a2.0 = a2]) simp_all
  have e1: "scanBodies s1 a1 nearby wd = die s1 a1 wd" using a by (intro e) simp
  have e2: "scanBodies s1 a1 (s2 # rest) wd = die s1 a1 wd" for rest by (intro e) simp
  show "scanBodies s1 a1 nearby wd = die s1 a1 wd
     \<and> heap (scanBodies s1 a1 nearby wd) = (heap wd)(s1 \<mapsto> a1\<lparr>dead := True\<rparr>)
     \<and> heap (scanBodies s1 a1 nearby wd) s2 = Some a2
     \<and> (\<forall>rest. scanBodies s1 a1 (s2 # rest) wd = die s1 a1 wd)
     \<and> (nearby = SpatialHash_retrieve
            \<lparr>Rect.x = Vector.x (Snake.pos a1) - 100, y = Vector.y (Snake.pos a1) - 100,
             w = 200, h = 200\<rparr> (spatialHash wd)
          \<longrightarrow> (\<forall>more. snakeVsSnake (s1 # more) wd = snakeVsSnake more (die s1 a1 wd)))"
    using a e1 e2 by (auto simp: die_heap)
qed

lemma world2_nearby:
  "SpatialHash_retrieve
     \<lparr>Rect.x = Vector.x (Snake.pos snake0) - 100, y = Vector.y (Snake.pos snake0) - 100,
      w = 200, h = 200\<rparr> (spatialHash world2) = [0, 1]"
  by (simp add: world2_def world0_def snake0_def snakeB_def insertAll_def SpatialHash_new_def
      SpatialHash_insert_def SpatialHash_retrieve_def Let_def upto.simps)

theorem collision_kills_head_owner_only_witness:
  "heap (scanBodies 0 snake0 [0, 1] world2) 0 = Some (snake0\<lparr>dead := True\<rparr>)
   \<and> heap (scanBodies 0 snake0 [0, 1] world2) 1 = Some snakeB
   \<and> \<not> dead snakeB
   \<and> scanBodies 0 snake0 [1, 1] world2 = die 0 snake0 world2
   \<and> snakeVsSnake [0] world2 = die 0 snake0 world2"
proof -
  have f: "heap world2 0 = Some snake0" "heap world2 1 = Some snakeB"
    "\<not> dead snake0" "\<not> dead snakeB"
    by (simp_all add: world2_def snakeB_def snake0_def)
  have k: "\<exists>k. k * nat (max 2 \<lfloor>width snakeB / 5\<rfloor>) < length (path snakeB)
       \<and> Vector_dist (Snake.pos snake0) (path snakeB ! (k * nat (max 2 \<lfloor>width snakeB / 5\<rfloor>)))
           < width snake0 * 0.35 + width snakeB / 2"
    by (rule exI [of _ 0]) (simp add: snakeB_def snake0_def)
  have n: "(1::nat) \<in> set [0, 1]" "(0::nat) \<noteq> 1" by simp_all
  have "heap world2 0 = Some snake0 \<and> heap world2 1 = Some snakeB \<and> (0::nat) \<noteq> 1
      \<and> \<not> dead snake0 \<and> \<not> dead snakeB \<and> (1::nat) \<in> set [0, 1]
      \<and> (\<exists>k. k * nat (max 2 \<lfloor>width snakeB / 5\<rfloor>) < length (path snakeB)
       \<and> Vector_dist (Snake.pos snake0) (path snakeB ! (k * nat (max 2 \<lfloor>width snakeB / 5\<rfloor>)))
           < width snake0 * 0.35 + width snakeB / 2)"
    by (intro conjI f k n)
  note r = collision_kills_head_owner_only [of world2 0 snake0 1 snakeB "[0, 1]", THEN mp, OF this]
  have e2: "heap (scanBodies 0 snake0 [0, 1] world2) = (heap world2)(0 \<mapsto> snake0\<lparr>dead := True\<rparr>)"
    using r by blast
  have e3: "heap (scanBodies 0 snake0 [0, 1] world2) 1 = Some snakeB"
    using r by blast
  have e4: "scanBodies 0 snake0 (1 # [1]) world2 = die 0 snake0 world2"
    using r by blast
  have "snakeVsSnake (0 # []) world2 = snakeVsSnake [] (die 0 snake0 world2)"
    using r world2_nearby [symmetric] by blast
  then have e5: "snakeVsSnake [0] world2 = die 0 snake0 world2"
    by (simp only: snakeVsSnake.simps(1))
  have e1: "heap (scanBodies 0 snake0 [0, 1] world2) 0 = Some (snake0\<lparr>dead := True\<rparr>)"
    unfolding e2 by simp
  show ?thesis
    by (intro conjI e1 e3 e4 e5 f)
qed

lemma snakeD_facts:
  "width snakeD = 130" "\<not> dead snakeD" "length (path snakeD) = 30"
  "path snakeD ! 26 = \<lparr>Vector.x = 10, y = 0\<rparr>"
  "Snake.pos snakeD = \<lparr>Vector.x = - 3370, y = 0\<rparr>"
  by (simp_all add: snakeD_def snake0_def)

lemma snake0_facts:
  "width snake0 = 65" "\<not> dead snake0" "Snake.pos snake0 = \<lparr>Vector.x = 0, y = 0\<rparr>"
  by (simp_all add: snake0_def)

lemma worldFar_heap: "heap worldFar 0 = Some snake0" "heap worldFar 1 = Some snakeD"
  by (simp_all add: worldFar_def)

lemma worldFar_grid:
  "spatialHash worldFar
     = \<lparr>cellSize = 1000, grid = [(0, 0) \<mapsto> [0], (- 4, 0) \<mapsto> [1]]\<rparr>"
  by (simp add: worldFar_def world0_def insertAll_def SpatialHash_new_def SpatialHash_insert_def
      Let_def snakeD_facts snake0_facts)

lemma worldFar_nearby0:
  "SpatialHash_retrieve
     \<lparr>Rect.x = Vector.x (Snake.pos snake0) - 100, y = Vector.y (Snake.pos snake0) - 100,
      w = 200, h = 200\<rparr> (spatialHash worldFar) = [0]"
  by (simp add: snake0_facts worldFar_grid SpatialHash_retrieve_def Let_def upto.simps)

lemma worldFar_nearby1:
  "SpatialHash_retrieve
     \<lparr>Rect.x = Vector.x (Snake.pos snakeD) - 100, y = Vector.y (Snake.pos snakeD) - 100,
      w = 200, h = 200\<rparr> (spatialHash worldFar) = [1]"
  by (simp add: snakeD_facts worldFar_grid SpatialHash_retrieve_def Let_def upto.simps)

lemma worldFar_pass: "snakeVsSnake [0, 1] worldFar = worldFar"
  by (simp only: snakeVsSnake.simps worldFar_heap option.case snake0_facts(2) snakeD_facts(2)
      if_False Let_def worldFar_nearby0 worldFar_nearby1 scanBodies.simps simp_thms if_True)

lemma worldFar_fields:
  "player worldFar = 0" "bots worldFar = [1]" "foods worldFar = []" "powerups worldFar = []"
  by (simp_all add: worldFar_def world0_def)

lemma worldFar_rewrite:
  "worldFar\<lparr>heap := (heap worldFar)(0 \<mapsto> snake0), foods := [], powerups := []\<rparr> = worldFar"
  "worldFar\<lparr>heap := (heap worldFar)(1 \<mapsto> snakeD), foods := [], powerups := []\<rparr> = worldFar"
  by (simp_all add: worldFar_def world0_def fun_eq_iff)

lemma worldFar_pickups: "pickups [0, 1] worldFar = worldFar"
  by (simp only: pickups.simps worldFar_heap option.case snake0_facts(2) snakeD_facts(2)
      if_False Let_def worldFar_fields list.size foodLoop.simps powerupLoop.simps
      prod.case worldFar_rewrite)

lemma worldFar_checkCollisions: "checkCollisions worldFar = worldFar"
  by (simp only: checkCollisions_def Let_def worldFar_fields worldFar_pickups worldFar_pass
      worldFar_heap option.case snake0_facts(2) if_False)

text \<open>
  C2 as stated, for every pair of live snakes, fails.  In \<open>worldFar\<close> both snakes
  are alive and the sampled point at index 26 of the path of the bot is 10 units
  from the head of \<open>snake0\<close>, below the minimal distance 87.75.  But the head of
  the bot is in the grid cell \<open>(-4, 0)\<close>, the query around the head of \<open>snake0\<close>
  returns \<open>snake0\<close> alone, and the pass leaves the world as it is: \<open>snake0\<close> is
  alive after \<^verbatim>\<open>checkCollisions\<close>.
\<close>

theorem far_body_owner_counterexample:
  "heap worldFar 0 = Some snake0 \<and> heap worldFar 1 = Some snakeD
   \<and> \<not> dead snake0 \<and> \<not> dead snakeD
   \<and> nat (max 2 \<lfloor>width snakeD / 5\<rfloor>) = 26
   \<and> 1 * nat (max 2 \<lfloor>width snakeD / 5\<rfloor>) < length (path snakeD)
   \<and> Vector_dist (Snake.pos snake0) (path snakeD ! (1 * nat (max 2 \<lfloor>width snakeD / 5\<rfloor>)))
       < width snake0 * 0.35 + width snakeD / 2
   \<and> SpatialHash_retrieve
        \<lparr>Rect.x = Vector.x (Snake.pos snake0) - 100, y = Vector.y (Snake.pos snake0) - 100,
         w = 200, h = 200\<rparr> (spatialHash worldFar) = [0]
   \<and> snakeVsSnake (player worldFar # bots worldFar) worldFar = worldFar
   \<and> heap (checkCollisions worldFar) 0 = Some snake0"
proof -
  have s: "nat (max 2 \<lfloor>width snakeD / 5\<rfloor>) = 26" by (simp add: snakeD_facts)
  have a: "player worldFar # bots worldFar = [0, 1]" by (simp add: worldFar_fields)
  have l: "1 * (26::nat) < length (path snakeD)" by (simp add: snakeD_facts)
  have d: "Vector_dist (Snake.pos snake0) (path snakeD ! (1 * 26))
      < width snake0 * 0.35 + width snakeD / 2"
    by (simp add: snakeD_facts snake0_facts)
  show ?thesis
    unfolding s a worldFar_checkCollisions worldFar_pass
    by (intro conjI worldFar_heap snake0_facts(2) snakeD_facts(2) refl l d worldFar_nearby0)
qed

section \<open>The collision scan of the bot\<close>

lemma scanPath_iff:
  "0 < step \<Longrightarrow>
   scanPath cp th op step i
     \<longleftrightarrow> (\<exists>k. i + k * step < length op \<and> Vector_dist cp (op ! (i + k * step)) < th)"
proof (induction cp th op step i rule: scanPath.induct)
  case (1 cp th op step i)
  show ?case
  proof (cases "i < length op")
    case False
    then have "scanPath cp th op step i = False" by (subst scanPath.simps) simp
    moreover have "\<not> (\<exists>k. i + k * step < length op \<and> Vector_dist cp (op ! (i + k * step)) < th)"
      using False by auto
    ultimately show ?thesis by simp
  next
    case True
    show ?thesis
    proof (cases "Vector_dist cp (op ! i) < th")
      case c: True
      then have "scanPath cp th op step i" using True 1(2) by (subst scanPath.simps) simp
      moreover have "i + 0 * step < length op \<and> Vector_dist cp (op ! (i + 0 * step)) < th"
        using True c by simp
      ultimately show ?thesis by blast
    next
      case c: False
      have "scanPath cp th op step i = scanPath cp th op step (i + step)"
        using True c 1(2) by (subst scanPath.simps) simp
      also have "\<dots> \<longleftrightarrow> (\<exists>k. i + step + k * step < length op
          \<and> Vector_dist cp (op ! (i + step + k * step)) < th)"
        using 1 True c by simp
      also have "\<dots> \<longleftrightarrow> (\<exists>k. i + k * step < length op
          \<and> Vector_dist cp (op ! (i + k * step)) < th)"
      proof
        assume "\<exists>k. i + step + k * step < length op
          \<and> Vector_dist cp (op ! (i + step + k * step)) < th"
        then obtain k where "i + step + k * step < length op"
          "Vector_dist cp (op ! (i + step + k * step)) < th" by blast
        then have "i + Suc k * step < length op \<and> Vector_dist cp (op ! (i + Suc k * step)) < th"
          by (simp add: add.assoc)
        then show "\<exists>k. i + k * step < length op \<and> Vector_dist cp (op ! (i + k * step)) < th"
          by blast
      next
        assume "\<exists>k. i + k * step < length op \<and> Vector_dist cp (op ! (i + k * step)) < th"
        then obtain k where k: "i + k * step < length op"
          "Vector_dist cp (op ! (i + k * step)) < th" by blast
        have "k \<noteq> 0" using k c by (cases k) auto
        then obtain j where j: "k = Suc j" by (cases k) auto
        have "i + step + j * step < length op \<and> Vector_dist cp (op ! (i + step + j * step)) < th"
          using k unfolding j by (simp add: add.assoc)
        then show "\<exists>k. i + step + k * step < length op
          \<and> Vector_dist cp (op ! (i + step + k * step)) < th" by blast
      qed
      finally show ?thesis .
    qed
  qed
qed

lemma scanNearby_threat:
  "scanNearby hp this cp nearby s
     = (if \<exists>other \<in> set nearby. threatens hp this cp s other
        then (True, s\<lparr>targetAngle := targetAngle s + pi / 2\<rparr>) else (False, s))"
proof (induction nearby)
  case Nil
  then show ?case by simp
next
  case (Cons r rest)
  have step: "0 < max 5 (length (path ot) div 10)" for ot :: Snake by simp
  have t: "threatens hp this cp s r
      \<longleftrightarrow> (r \<noteq> this \<and> (\<exists>ot. hp r = Some ot \<and> \<not> dead ot
            \<and> scanPath cp (width s + width ot) (path ot) (max 5 (length (path ot) div 10)) 0))"
    unfolding threatens_def by (simp add: scanPath_iff [OF step])
  show ?case
  proof (cases "threatens hp this cp s r")
    case True
    then show ?thesis using t by (auto simp: Let_def)
  next
    case False
    then have "scanNearby hp this cp (r # rest) s = scanNearby hp this cp rest s"
      using t by (auto simp: Let_def split: option.splits)
    then show ?thesis using False Cons.IH by simp
  qed
qed

lemma dangerChecks_no_bounds:
  "\<not> boundsDanger s \<Longrightarrow>
   dangerChecks this s wd = scanNearby (heap wd) this (checkPos s) (nearbyOfBot s wd) s"
  by (simp add: dangerChecks_def)

text \<open>
  C7, as the code has it.  On a scan without boundary danger the bot examines the
  neighbours returned by the grid query around its head (the square of half-side
  \<open>lookDist\<close> centred on the head position).  It flags danger and adds \<open>pi / 2\<close>
  to its desired heading, once, exactly when one of these neighbours, other than
  the bot itself and alive, has a sampled path point (indices
  \<open>0, step, 2 * step, \<dots>\<close> with \<open>step = max 5 (length div 10)\<close>) closer to the probe
  point than the sum of the two full widths; otherwise flag and heading are
  unchanged.  With danger the scan also sets the boost intent.
\<close>

theorem bot_collision_danger:
  "\<not> boundsDanger s
   \<longrightarrow> nearbyOfBot s wd
         = SpatialHash_retrieve
             \<lparr>Rect.x = Vector.x (Snake.pos s) - lookDist s,
              y = Vector.y (Snake.pos s) - lookDist s,
              w = lookDist s * 2, h = lookDist s * 2\<rparr> (spatialHash wd)
     \<and> dangerChecks this s wd
         = (if \<exists>other \<in> set (nearbyOfBot s wd). threatens (heap wd) this (checkPos s) s other
            then (True, s\<lparr>targetAngle := targetAngle s + pi / 2\<rparr>) else (False, s))
     \<and> ((\<exists>other \<in> set (nearbyOfBot s wd). threatens (heap wd) this (checkPos s) s other)
          \<longrightarrow> Bot_scan dt this s wd
              = (s\<lparr>targetAngle := targetAngle s + pi / 2, wantBoost := True\<rparr>, wd))"
  by (simp add: dangerChecks_no_bounds scanNearby_threat nearbyOfBot_def Bot_scan_def)

lemma Vector_dist_y_axis [simp]:
  "Vector_dist \<lparr>Vector.x = c, y = a\<rparr> \<lparr>Vector.x = c, y = b\<rparr> = \<bar>a - b\<bar>"
  by (simp add: Vector_dist_def)

lemma botA_probe:
  "lookDist botA = 460" "checkPos botA = \<lparr>Vector.x = 460, y = 0\<rparr>" "\<not> boundsDanger botA"
  "Snake.pos botA = \<lparr>Vector.x = 0, y = 0\<rparr>" "width botA = 65" "targetAngle botA = 0"
  by (simp_all add: boundsDanger_def checkPos_def lookDist_def botA_def snake0_def
      Vector_add_def Vector_mult_def CONFIG_def)

lemma snakeC_facts:
  "width snakeC = 65" "\<not> dead snakeC" "length (path snakeC) = 6"
  "path snakeC ! 0 = \<lparr>Vector.x = - 10, y = - 400\<rparr>"
  "path snakeC ! 5 = \<lparr>Vector.x = 460, y = - 100\<rparr>"
  by (simp_all add: snakeC_def snake0_def)

lemma world3_heap: "heap world3 0 = Some botA" "heap world3 1 = Some snakeC"
  by (simp_all add: world3_def)

lemma world3_grid:
  "spatialHash world3
     = \<lparr>cellSize = 1000, grid = [(- 1, - 1) \<mapsto> [1], (0, 0) \<mapsto> [0]]\<rparr>"
  by (simp add: world3_def world0_def insertAll_def SpatialHash_new_def SpatialHash_insert_def
      Let_def snakeC_def botA_def snake0_def)

lemma world3_nearby: "nearbyOfBot botA world3 = [1, 0]"
  by (simp add: nearbyOfBot_def botA_probe world3_grid SpatialHash_retrieve_def Let_def upto.simps)

lemma world3_probe_query:
  "SpatialHash_retrieve
     \<lparr>Rect.x = Vector.x (checkPos botA) - lookDist botA,
      y = Vector.y (checkPos botA) - lookDist botA,
      w = lookDist botA * 2, h = lookDist botA * 2\<rparr> (spatialHash world3) = [0]"
  by (simp add: botA_probe world3_grid SpatialHash_retrieve_def Let_def upto.simps)

lemma snakeC_first_point_far:
  "\<not> Vector_dist (checkPos botA) (path snakeC ! 0) < width botA + width snakeC"
  using abs_le_dist_x [of "checkPos botA" "path snakeC ! 0"]
  by (simp add: botA_probe snakeC_facts)

lemma snakeC_threatens: "threatens (heap world3) 0 (checkPos botA) botA 1"
proof -
  have "(1::nat) * max 5 (length (path snakeC) div 10) < length (path snakeC)
      \<and> Vector_dist (checkPos botA) (path snakeC ! (1 * max 5 (length (path snakeC) div 10)))
          < width botA + width snakeC"
    by (simp add: snakeC_facts botA_probe)
  then show ?thesis
    unfolding threatens_def using world3_heap(2) snakeC_facts(2) by blast
qed

text \<open>
  C7 as stated fails.  In \<open>world3\<close> the bot has no boundary danger; the other
  snake is returned by the query around the head but not by a query of the same
  size around the probe point; its first sampled point is farther from the probe
  point than the sum of the widths, and its sampled point at index 5 is at
  distance 100, not below the sum 65 of the half-widths; yet danger is flagged and
  the heading deflected.
\<close>

theorem bot_danger_first_point_counterexample:
  "\<not> boundsDanger botA
   \<and> 1 \<in> set (nearbyOfBot botA world3)
   \<and> 1 \<notin> set (SpatialHash_retrieve
        \<lparr>Rect.x = Vector.x (checkPos botA) - lookDist botA,
         y = Vector.y (checkPos botA) - lookDist botA,
         w = lookDist botA * 2, h = lookDist botA * 2\<rparr> (spatialHash world3))
   \<and> \<not> Vector_dist (checkPos botA) (path snakeC ! 0) < width botA / 2 + width snakeC / 2
   \<and> \<not> Vector_dist (checkPos botA) (path snakeC ! 0) < width botA + width snakeC
   \<and> \<not> Vector_dist (checkPos botA) (path snakeC ! 5) < width botA / 2 + width snakeC / 2
   \<and> dangerChecks 0 botA world3 = (True, botA\<lparr>targetAngle := targetAngle botA + pi / 2\<rparr>)"
proof -
  have a: "\<not> Vector_dist (checkPos botA) (path snakeC ! 0) < width botA / 2 + width snakeC / 2"
    using snakeC_first_point_far by (simp add: botA_probe snakeC_facts)
  have b: "\<not> Vector_dist (checkPos botA) (path snakeC ! 5) < width botA / 2 + width snakeC / 2"
    by (simp add: botA_probe snakeC_facts)
  have "\<exists>other \<in> set (nearbyOfBot botA world3). threatens (heap world3) 0 (checkPos botA) botA other"
    using snakeC_threatens by (simp add: world3_nearby)
  then have d: "dangerChecks 0 botA world3 = (True, botA\<lparr>targetAngle := targetAngle botA + pi / 2\<rparr>)"
    by (simp only: dangerChecks_no_bounds [OF botA_probe(3)] scanNearby_threat if_True)
  show ?thesis
    using a b d snakeC_first_point_far botA_probe(3)
    by (simp add: world3_nearby world3_probe_query)
qed

theorem bot_collision_danger_witness:
  "\<not> boundsDanger botA
   \<and> nearbyOfBot botA world3 = [1, 0]
   \<and> dangerChecks 0 botA world3 = (True, botA\<lparr>targetAngle := targetAngle botA + pi / 2\<rparr>)
   \<and> Bot_scan (1 / 20) 0 botA world3
       = (botA\<lparr>targetAngle := targetAngle botA + pi / 2, wantBoost := True\<rparr>, world3)"
proof -
  have e: "\<exists>other \<in> set (nearbyOfBot botA world3). threatens (heap world3) 0 (checkPos botA) botA other"
    using snakeC_threatens by (simp add: world3_nearby)
  note r = bot_collision_danger [of botA world3 0 "1 / 20", THEN mp, OF botA_probe(3)]
  have d: "dangerChecks 0 botA world3 = (True, botA\<lparr>targetAngle := targetAngle botA + pi / 2\<rparr>)"
    using r e by (simp only: if_True)
  have s: "Bot_scan (1 / 20) 0 botA world3
       = (botA\<lparr>targetAngle := targetAngle botA + pi / 2, wantBoost := True\<rparr>, world3)"
    using r e by blast
  show ?thesis
    by (intro conjI botA_probe(3) world3_nearby d s)
qed

section \<open>The width stays positive; the whole food loop\<close>

text \<open>
  The width of a new snake is at least 40, and an update with \<open>0 \<le> dt \<le> 0.05\<close>
  keeps it so: the hypothesis on the width in the pickup property holds for every
  snake of a game.
\<close>

lemma Snake_new_width: "40 \<le> width (fst (Snake_new nm isB sc wd))"
proof -
  have "width (fst (Snake_new nm isB sc wd)) = min 500 (15 + log 10 (max 10 sc) * 25)"
    by (simp add: Snake_new_def Let_def case_prod_beta Snake_calculateWidth_def)
  moreover have "40 \<le> Snake_calculateWidth (snake0\<lparr>score := sc\<rparr>)"
    by (rule calculateWidth_ge_40)
  ultimately show ?thesis by (simp add: Snake_calculateWidth_def)
qed

lemma smoothGrowth_width:
  assumes "40 \<le> width s" "0 \<le> dt" "dt \<le> 0.05"
  shows "40 \<le> width (smoothGrowth dt s)"
proof -
  let ?t = "Snake_calculateWidth s"
  have t: "40 \<le> ?t" by (rule calculateWidth_ge_40)
  have e: "width (smoothGrowth dt s) = (1 - dt * 2) * width s + dt * 2 * ?t"
    by (simp add: smoothGrowth_def Let_def Snake_calculateWidth_def algebra_simps)
  have "(1 - dt * 2) * 40 \<le> (1 - dt * 2) * width s"
    using assms by (intro mult_left_mono) simp_all
  moreover have "dt * 2 * 40 \<le> dt * 2 * ?t"
    using assms t by (intro mult_left_mono) simp_all
  ultimately show ?thesis unfolding e by (simp add: algebra_simps)
qed

lemma update_this_width:
  assumes "40 \<le> width s" "0 \<le> dt" "dt \<le> 0.05"
  shows "40 \<le> width (fst (Snake_update_this dt s wd))"
proof (cases "dead s")
  case True
  then show ?thesis using assms by (simp add: Snake_update_this_def)
next
  case False
  show ?thesis
  proof (cases "Vector_mag (Snake.pos (fst (moveHead dt s wd))) > mapSize CONFIG")
    case True
    show ?thesis using assms by (simp add: update_this_dead_exit [OF False True])
  next
    case F2: False
    show ?thesis
      using assms by (simp add: update_this_live_exit [OF False F2] smoothGrowth_width)
  qed
qed

lemma eats_grow [simp]: "eats (Snake_grow a s) f = eats s f"
  by (simp add: eats_def Snake_grow_def)

lemma foodStep_eats:
  "foodStep i (s, fs)
     = (if eats s (fs ! i) then (Snake_grow (value (fs ! i)) s, take i fs @ drop (Suc i) fs)
        else (s, fs))"
  by (simp add: foodStep_def eats_def Let_def)

text \<open>The whole food loop of one snake: the items that pass the test are removed,
  the others stay in their order, and each removed item adds its value times the
  multiplier times 10 to the score.\<close>

lemma foodLoop_result:
  "n \<le> length fs \<Longrightarrow>
   foodLoop n (s, fs)
     = (s\<lparr>score := score s
            + (\<Sum>f\<leftarrow>filter (eats s) (take n fs). value f * Snake.multiplier s * 10)\<rparr>,
        filter (\<lambda>f. \<not> eats s f) (take n fs) @ drop n fs)"
proof (induction n arbitrary: s fs)
  case 0
  then show ?case by simp
next
  case (Suc n)
  then have n: "n < length fs" by simp
  have t: "take (Suc n) fs = take n fs @ [fs ! n]"
    using n by (simp add: take_Suc_conv_app_nth)
  show ?case
  proof (cases "eats s (fs ! n)")
    case False
    then have "foodLoop (Suc n) (s, fs) = foodLoop n (s, fs)"
      by (simp add: foodStep_eats)
    also have "\<dots> = (s\<lparr>score := score s
            + (\<Sum>f\<leftarrow>filter (eats s) (take n fs). value f * Snake.multiplier s * 10)\<rparr>,
        filter (\<lambda>f. \<not> eats s f) (take n fs) @ drop n fs)"
      using n by (intro Suc.IH) simp
    also have "drop n fs = fs ! n # drop (Suc n) fs"
      using n by (simp add: Cons_nth_drop_Suc)
    finally show ?thesis using False by (simp add: t)
  next
    case True
    let ?s1 = "Snake_grow (value (fs ! n)) s"
    let ?fs1 = "take n fs @ drop (Suc n) fs"
    have l: "n \<le> length ?fs1" using n by simp
    have tk: "take n ?fs1 = take n fs" using n by simp
    have dr: "drop n ?fs1 = drop (Suc n) fs" using n by simp
    have "foodLoop (Suc n) (s, fs) = foodLoop n (?s1, ?fs1)"
      using True by (simp add: foodStep_eats)
    also have "\<dots> = (?s1\<lparr>score := score ?s1
            + (\<Sum>f\<leftarrow>filter (eats ?s1) (take n ?fs1). value f * Snake.multiplier ?s1 * 10)\<rparr>,
        filter (\<lambda>f. \<not> eats ?s1 f) (take n ?fs1) @ drop n ?fs1)"
      by (rule Suc.IH [OF l])
    finally have r: "foodLoop (Suc n) (s, fs) = (?s1\<lparr>score := score ?s1
            + (\<Sum>f\<leftarrow>filter (eats ?s1) (take n fs). value f * Snake.multiplier ?s1 * 10)\<rparr>,
        filter (\<lambda>f. \<not> eats ?s1 f) (take n fs) @ drop (Suc n) fs)"
      unfolding tk dr .
    have g: "eats ?s1 = eats s" by (rule ext) simp
    have m: "Snake.multiplier ?s1 = Snake.multiplier s"
      "score ?s1 = score s + value (fs ! n) * Snake.multiplier s * 10"
      "?s1\<lparr>score := c\<rparr> = s\<lparr>score := c\<rparr>" for c
      by (simp_all add: Snake_grow_def)
    show ?thesis
      unfolding r g m t using True by (simp add: add.assoc add.commute)
  qed
qed

end
